theory Spec2Isabelle
  imports Main
begin

section \<open>The world the program acts on\<close>

text \<open>
  \<^verbatim>\<open>rpmconf.py\<close> reads and changes files, talks to the administrator on the terminal and
  starts other programs. The embedding makes each of these explicit.

  \<^item> The filesystem is a map from paths to nodes. A node is a regular file (its bytes and its
    modification time, the two things \<^verbatim>\<open>filecmp.cmp\<close> and \<^verbatim>\<open>shutil.copy2\<close> look at) or a
    symbolic link (its target, taken as a path of the same map). Directories are implicit.
  \<^item> Standard input is the list of lines the administrator still has to type; the empty list
    is end of input.
  \<^item> Everything the program shows is appended to a list of output events.
  \<^item> A Python exception is a value of type \<open>error\<close>; a procedure returns \<open>Inl e\<close> together
    with the world as it was when \<open>e\<close> was raised. \<^verbatim>\<open>sys.exit(n)\<close> is the exception
    \<open>SystemExit n\<close>.

  Outside the model: hard links and the permissions of files, the cache that \<^verbatim>\<open>filecmp\<close>
  keeps between two comparisons of the same pair, and what the administrator does while
  the process is stopped after \<^verbatim>\<open>Z\<close>.
\<close>

type_synonym path = string

datatype node = File (content: string) (mtime: nat) | Symlink (target: path)

type_synonym filesystem = "path \<Rightarrow> node option"

datatype error =
    FileNotFoundError
  | FileExistsError
  | OSError
  | SameFileError
  | CalledProcessError
  | EOFError
  | SystemExit nat

datatype event =
    Print string
  | PrintRepr string
  | Stderr string
  | LogInfo string
  | LogError string
  | Ask string
  | Pager path path
  | Listing bool path path
  | Sigstop

record world =
  fs :: filesystem
  out :: "event list"

type_synonym 'a result = "(error + 'a) \<times> world"

type_synonym 'a io = "(error + 'a) \<times> string list \<times> world"

text \<open>
  What the program does not contain is a parameter: the programs it starts with
  \<^verbatim>\<open>subprocess\<close> for merging (\<open>run_tool\<close>: the argument vector and the filesystem give
  either "no such executable" or an exit status and the filesystem the tool leaves behind),
  the query \<^verbatim>\<open>rpm -qf\<close> (\<open>rpm_qf\<close>: an exit status and the text printed), the generator
  \<^verbatim>\<open>os.walk(top, followlinks=True)\<close> (\<open>os_walk\<close>: it is handed the pruning that the loop body
  applies to \<^verbatim>\<open>dirs\<close> and yields the pairs of a directory and its file names) and the
  environment variable \<^verbatim>\<open>MERGE\<close>.
\<close>

datatype proc = ToolMissing | Exited nat filesystem

datatype query = QueryMissing | QueryExited nat string

record env =
  run_tool :: "string list \<Rightarrow> filesystem \<Rightarrow> proc"
  rpm_qf :: "filesystem \<Rightarrow> path \<Rightarrow> query"
  os_walk :: "filesystem \<Rightarrow> path \<Rightarrow> (path \<Rightarrow> string list \<Rightarrow> string list)
     \<Rightarrow> (path \<times> string list) list"
  environ_MERGE :: "string option"

text \<open>
  The instance of \<^verbatim>\<open>class RpmConf\<close>. \<open>packages\<close> is what \<^verbatim>\<open>__init__\<close> got from the package
  database: a list of match iterators, each a list of headers; a header lists its files,
  each with its name (\<^verbatim>\<open>rpm_file[0]\<close>) and its flags (\<^verbatim>\<open>rpm_file[4]\<close>).
\<close>

type_synonym rpm_file = "path \<times> nat"

type_synonym header = "rpm_file list"

record rpmconf =
  packages :: "header list list"
  clean :: bool
  debug :: bool
  selinux :: bool
  diff :: bool
  frontend :: "string option"

section \<open>The operating system and library calls the program makes\<close>

definition lexists :: "filesystem \<Rightarrow> path \<Rightarrow> bool" where
  "lexists f p = (f p \<noteq> None)"

definition islink :: "filesystem \<Rightarrow> path \<Rightarrow> bool" where
  "islink f p = (case f p of Some (Symlink t) \<Rightarrow> True | _ \<Rightarrow> False)"

text \<open>
  Following symbolic links, as \<^verbatim>\<open>stat\<close> and \<^verbatim>\<open>open\<close> for reading do: the path of the regular
  file reached, \<^verbatim>\<open>ENOENT\<close> for a missing path, \<^verbatim>\<open>ELOOP\<close> after too many links.
\<close>

fun follow :: "filesystem \<Rightarrow> nat \<Rightarrow> path \<Rightarrow> error + path" where
  "follow f 0 p =
     (case f p of None \<Rightarrow> Inl FileNotFoundError
      | Some (File c m) \<Rightarrow> Inr p
      | Some (Symlink t) \<Rightarrow> Inl OSError)"
| "follow f (Suc n) p =
     (case f p of None \<Rightarrow> Inl FileNotFoundError
      | Some (File c m) \<Rightarrow> Inr p
      | Some (Symlink t) \<Rightarrow> follow f n t)"

text \<open>Following links as \<^verbatim>\<open>open\<close> for writing does: a missing last path is created.\<close>

fun follow_create :: "filesystem \<Rightarrow> nat \<Rightarrow> path \<Rightarrow> error + path" where
  "follow_create f 0 p =
     (case f p of None \<Rightarrow> Inr p
      | Some (File c m) \<Rightarrow> Inr p
      | Some (Symlink t) \<Rightarrow> Inl OSError)"
| "follow_create f (Suc n) p =
     (case f p of None \<Rightarrow> Inr p
      | Some (File c m) \<Rightarrow> Inr p
      | Some (Symlink t) \<Rightarrow> follow_create f n t)"

definition MAXSYMLINKS :: nat where
  "MAXSYMLINKS = 40"

definition os_stat :: "filesystem \<Rightarrow> path \<Rightarrow> error + path" where
  "os_stat f p = follow f MAXSYMLINKS p"

text \<open>\<^verbatim>\<open>os.access(path, os.F_OK)\<close>: the path exists, links followed.\<close>

definition os_access :: "filesystem \<Rightarrow> path \<Rightarrow> bool" where
  "os_access f p = (case os_stat f p of Inl e \<Rightarrow> False | Inr q \<Rightarrow> True)"

definition os_unlink :: "filesystem \<Rightarrow> path \<Rightarrow> error + filesystem" where
  "os_unlink f p = (if f p = None then Inl FileNotFoundError else Inr (f(p := None)))"

definition os_symlink :: "filesystem \<Rightarrow> path \<Rightarrow> path \<Rightarrow> error + filesystem" where
  "os_symlink f linkto dst =
     (if f dst \<noteq> None then Inl FileExistsError else Inr (f(dst \<mapsto> Symlink linkto)))"

definition os_readlink :: "filesystem \<Rightarrow> path \<Rightarrow> error + path" where
  "os_readlink f p =
     (case f p of None \<Rightarrow> Inl FileNotFoundError
      | Some (File c m) \<Rightarrow> Inl OSError
      | Some (Symlink t) \<Rightarrow> Inr t)"

text \<open>The bytes read through a path.\<close>

definition read_file :: "filesystem \<Rightarrow> path \<Rightarrow> error + string" where
  "read_file f p =
     (case os_stat f p of Inl e \<Rightarrow> Inl e
      | Inr q \<Rightarrow> (case f q of Some (File c m) \<Rightarrow> Inr c | _ \<Rightarrow> Inl OSError))"

text \<open>
  \<^verbatim>\<open>shutil.copy2(src, dst)\<close> for a destination that is not a directory: it refuses two paths
  of one file, opens the source, opens the destination for writing (through its links,
  creating it when missing), copies the bytes and then the modification time.
\<close>

definition shutil_copy2 :: "filesystem \<Rightarrow> path \<Rightarrow> path \<Rightarrow> error + filesystem" where
  "shutil_copy2 f src dst =
     (case os_stat f src of
        Inl e \<Rightarrow> Inl e
      | Inr s \<Rightarrow>
          if os_stat f dst = Inr s then Inl SameFileError
          else (case follow_create f MAXSYMLINKS dst of
                  Inl e \<Rightarrow> Inl e
                | Inr d \<Rightarrow> Inr (f(d := f s))))"

text \<open>
  \<^verbatim>\<open>filecmp.cmp(f1, f2)\<close> with its default \<^verbatim>\<open>shallow=True\<close>: both paths are looked up with
  \<^verbatim>\<open>os.stat\<close>; files of equal size and modification time are taken as equal without being
  read, files of different size as different, and only the others are compared byte by
  byte.
\<close>

definition filecmp_cmp :: "filesystem \<Rightarrow> path \<Rightarrow> path \<Rightarrow> error + bool" where
  "filecmp_cmp f f1 f2 =
     (case os_stat f f1 of
        Inl e \<Rightarrow> Inl e
      | Inr p1 \<Rightarrow>
          (case os_stat f f2 of
             Inl e \<Rightarrow> Inl e
           | Inr p2 \<Rightarrow>
               (case (f p1, f p2) of
                  (Some (File c1 m1), Some (File c2 m2)) \<Rightarrow>
                    Inr (if length c1 = length c2 \<and> m1 = m2 then True
                         else if length c1 \<noteq> length c2 then False
                         else c1 = c2)
                | _ \<Rightarrow> Inl OSError)))"

text \<open>
  \<^verbatim>\<open>str.upper\<close>. Text is held as its UTF-8 bytes. The program compares the result with
  one-letter options: besides the letters of ASCII, exactly two letters have a capital in
  ASCII, the dotless i (U+0131, bytes C4 B1, capital \<^verbatim>\<open>I\<close>) and the long s (U+017F, bytes
  C5 BF, capital \<^verbatim>\<open>S\<close>). Every other byte outside ASCII is left as it is; there
  \<^verbatim>\<open>str.upper\<close> gives other text, which is not an option either.
\<close>

definition upper_char :: "char \<Rightarrow> char" where
  "upper_char c =
     (case map_of (zip ''abcdefghijklmnopqrstuvwxyz'' ''ABCDEFGHIJKLMNOPQRSTUVWXYZ'') c of
        None \<Rightarrow> c
      | Some u \<Rightarrow> u)"

fun upper :: "string \<Rightarrow> string" where
  "upper [] = []"
| "upper [c] = [upper_char c]"
| "upper (c # d # s) =
     (if c = CHR 0xC4 \<and> d = CHR 0xB1 then CHR ''I'' # upper s
      else if c = CHR 0xC5 \<and> d = CHR 0xBF then CHR ''S'' # upper s
      else upper_char c # upper (d # s))"

definition ljust :: "nat \<Rightarrow> string \<Rightarrow> string" where
  "ljust n s = s @ replicate (n - length s) (CHR '' '')"

text \<open>
  \<^verbatim>\<open>str.rfind\<close> for one character: the index of its last occurrence, or \<open>-1\<close>.
\<close>

definition rfind :: "string \<Rightarrow> char \<Rightarrow> int" where
  "rfind p c =
     (if c \<in> set p then int (length p) - 1 - int (length (takeWhile (\<lambda>x. x \<noteq> c) (rev p)))
      else - 1)"

text \<open>
  \<^verbatim>\<open>os.path.splitext\<close> (\<^verbatim>\<open>genericpath._splitext\<close> with separator \<^verbatim>\<open>/\<close>): the extension starts
  at the last dot, if that dot is in the last component and some character of the
  component before it is not a dot.
\<close>

definition splitext :: "path \<Rightarrow> path \<times> string" where
  "splitext p =
     (let sepIndex = rfind p (CHR ''/'');
          dotIndex = rfind p (CHR ''.'')
      in if dotIndex > sepIndex
            \<and> list_ex (\<lambda>i. p ! i \<noteq> CHR ''.'') [nat (sepIndex + 1) ..< nat dotIndex]
         then (take (nat dotIndex) p, drop (nat dotIndex) p)
         else (p, []))"

text \<open>\<^verbatim>\<open>os.path.join\<close> for two components.\<close>

definition join :: "path \<Rightarrow> string \<Rightarrow> path" where
  "join a b =
     (if take 1 b = ''/'' then b
      else if a = [] \<or> (a \<noteq> [] \<and> last a = CHR ''/'') then a @ b
      else a @ ''/'' @ b)"

section \<open>Output, input and the file transfer primitives\<close>

definition print :: "string \<Rightarrow> world \<Rightarrow> world" where
  "print s w = w\<lparr>out := out w @ [Print s]\<rparr>"

definition emit :: "event \<Rightarrow> world \<Rightarrow> world" where
  "emit e w = w\<lparr>out := out w @ [e]\<rparr>"

text \<open>
  \<^verbatim>\<open>flush_input\<close>: standard input is a terminal, and \<^verbatim>\<open>tcflush\<close> discards what was typed
  before the question; the lines of the model are those typed after it. \<^verbatim>\<open>input\<close> shows the
  question and returns the next line, or raises \<^verbatim>\<open>EOFError\<close> at end of input.
\<close>

definition flush_input :: "string \<Rightarrow> string list \<Rightarrow> world \<Rightarrow> string io" where
  "flush_input question inp w =
     (case inp of
        [] \<Rightarrow> (Inl EOFError, [], emit (Ask question) w)
      | l # ls \<Rightarrow> (Inr l, ls, emit (Ask question) w))"

text \<open>\<^verbatim>\<open>get_list_of_config\<close>: the names of the files whose flags have \<^verbatim>\<open>RPMFILE_CONFIG\<close>.\<close>

definition RPMFILE_CONFIG :: nat where
  "RPMFILE_CONFIG = 1"

definition get_list_of_config :: "header \<Rightarrow> path list" where
  "get_list_of_config package =
     map fst (filter (\<lambda>rpm_file. and (snd rpm_file) RPMFILE_CONFIG \<noteq> 0) package)"

text \<open>
  \<^verbatim>\<open>show_diff\<close> looks both files up with \<^verbatim>\<open>os.stat\<close>, reads them and sends the difference to
  the pager. It changes no file.
\<close>

definition show_diff :: "path \<Rightarrow> path \<Rightarrow> world \<Rightarrow> unit result" where
  "show_diff file1 file2 w =
     (case os_stat (fs w) file1 of
        Inl e \<Rightarrow> (Inl e, w)
      | Inr p1 \<Rightarrow>
          (case os_stat (fs w) file2 of
             Inl e \<Rightarrow> (Inl e, w)
           | Inr p2 \<Rightarrow> (Inr (), emit (Pager file1 file2) w)))"

definition show_cond_diff :: "path \<Rightarrow> path \<Rightarrow> path \<Rightarrow> world \<Rightarrow> unit result" where
  "show_cond_diff file_ex file1 file2 w =
     (if lexists (fs w) file_ex then show_diff file1 file2 w else (Inr (), w))"

definition copy :: "path \<Rightarrow> path \<Rightarrow> world \<Rightarrow> unit result" where
  "copy src dst w =
     (if islink (fs w) src then
        (case os_readlink (fs w) src of
           Inl e \<Rightarrow> (Inl e, w)
         | Inr linkto \<Rightarrow>
             (case os_symlink (fs w) linkto dst of
                Inr f1 \<Rightarrow> (Inr (), w\<lparr>fs := f1\<rparr>)
              | Inl e \<Rightarrow>
                  if e = FileExistsError then
                    (case os_unlink (fs w) dst of
                       Inl e2 \<Rightarrow> (Inl e2, w)
                     | Inr f1 \<Rightarrow>
                         (case os_symlink f1 linkto dst of
                            Inl e3 \<Rightarrow> (Inl e3, w\<lparr>fs := f1\<rparr>)
                          | Inr f2 \<Rightarrow> (Inr (), w\<lparr>fs := f2\<rparr>)))
                  else (Inl e, w)))
      else
        (case shutil_copy2 (fs w) src dst of
           Inl e \<Rightarrow> (Inl e, w)
         | Inr f1 \<Rightarrow> (Inr (), w\<lparr>fs := f1\<rparr>)))"

definition remove :: "rpmconf \<Rightarrow> path \<Rightarrow> world \<Rightarrow> unit result" where
  "remove cfg conf_file w =
     (if debug cfg then (Inr (), print (''rm '' @ conf_file) w)
      else (case os_unlink (fs w) conf_file of
              Inl e \<Rightarrow> (Inl e, w)
            | Inr f1 \<Rightarrow> (Inr (), w\<lparr>fs := f1\<rparr>)))"

definition overwrite :: "rpmconf \<Rightarrow> path \<Rightarrow> path \<Rightarrow> world \<Rightarrow> unit result" where
  "overwrite cfg src dst w =
     (if debug cfg then (Inr (), print (''cp --no-dereference '' @ src @ '' '' @ dst) w)
      else (case copy src dst w of
              (Inl e, w1) \<Rightarrow> (Inl e, w1)
            | (Inr u, w1) \<Rightarrow> remove cfg src w1))"

text \<open>
  \<^verbatim>\<open>_ls_conf_file\<close> prints what \<^verbatim>\<open>/usr/bin/ls -ltrd\<close> says about the two paths.
  \<^verbatim>\<open>ls\<close> exits with a status other than 0 when it cannot find one of its operands, and
  \<^verbatim>\<open>subprocess.check_output\<close> then raises \<^verbatim>\<open>CalledProcessError\<close>.
\<close>

definition ls_conf_file :: "rpmconf \<Rightarrow> path \<Rightarrow> path \<Rightarrow> world \<Rightarrow> unit result" where
  "ls_conf_file cfg conf_file other_file w =
     (let w1 = print (''Configuration file '' @ [CHR 0x27] @ conf_file @ [CHR 0x27]) w
      in if lexists (fs w1) conf_file \<and> lexists (fs w1) other_file
         then (Inr (), emit (Listing (selinux cfg) conf_file other_file) w1)
         else (Inl CalledProcessError, w1))"

section \<open>The merge tool dispatcher\<close>

text \<open>
  \<^verbatim>\<open>subprocess.check_call\<close>: \<^verbatim>\<open>FileNotFoundError\<close> when the executable cannot be started,
  \<^verbatim>\<open>CalledProcessError\<close> when it exits with a status other than 0. Whatever the tool did to
  the files is done in both cases.
\<close>

definition check_call :: "env \<Rightarrow> string list \<Rightarrow> world \<Rightarrow> unit result" where
  "check_call env args w =
     (case run_tool env args (fs w) of
        ToolMissing \<Rightarrow> (Inl FileNotFoundError, w)
      | Exited rc f1 \<Rightarrow>
          (if rc = 0 then (Inr (), w\<lparr>fs := f1\<rparr>) else (Inl CalledProcessError, w\<lparr>fs := f1\<rparr>)))"

text \<open>The handler \<^verbatim>\<open>except subprocess.CalledProcessError: print("Files not merged.")\<close>.\<close>

definition not_merged :: "unit result \<Rightarrow> unit result" where
  "not_merged r =
     (case r of
        (Inl e, w) \<Rightarrow>
          if e = CalledProcessError then (Inr (), print ''Files not merged.'' w) else (Inl e, w)
      | (Inr u, w) \<Rightarrow> (Inr u, w))"

text \<open>\<^verbatim>\<open>"{}".format(self.frontend)\<close>: Python writes \<^verbatim>\<open>None\<close> as the text "None".\<close>

definition format_frontend :: "string option \<Rightarrow> string" where
  "format_frontend fe = (case fe of None \<Rightarrow> ''None'' | Some s \<Rightarrow> s)"

definition merge_conf_files :: "env \<Rightarrow> rpmconf \<Rightarrow> path \<Rightarrow> path \<Rightarrow> world \<Rightarrow> unit result" where
  "merge_conf_files env cfg conf_file other_file w =
     (case
        (if frontend cfg = Some ''vimdiff'' \<or> frontend cfg = Some ''gvimdiff''
            \<or> frontend cfg = Some ''meld'' then
           check_call env
             [''/usr/bin/'' @ format_frontend (frontend cfg), conf_file, other_file] w
         else if frontend cfg = Some ''diffuse'' then
           not_merged (check_call env [''/usr/bin/diffuse'', conf_file, other_file] w)
         else if frontend cfg = Some ''kdiff3'' then
           not_merged
             (case check_call env
                     [''/usr/bin/kdiff3'', conf_file, other_file, ''-o'', conf_file] w of
                (Inl e, w1) \<Rightarrow> (Inl e, w1)
              | (Inr u, w1) \<Rightarrow>
                  (case remove cfg other_file w1 of
                     (Inl e, w2) \<Rightarrow> (Inl e, w2)
                   | (Inr u, w2) \<Rightarrow> remove cfg (conf_file @ ''.orig'') w2))
         else if (frontend cfg = Some ''env'' \<or> frontend cfg = None)
                 \<and> environ_MERGE env \<noteq> None then
           (case environ_MERGE env of
              None \<Rightarrow> (Inr (), w)
            | Some merge_tool \<Rightarrow>
                check_call env [merge_tool, conf_file, other_file]
                  (emit (PrintRepr merge_tool) w))
         else
           (Inl (SystemExit 2),
            emit (LogError ''You did not selected any frontend for merge'') w))
      of
        (Inl e, w1) \<Rightarrow>
          if e = FileNotFoundError
          then (Inl (SystemExit 4), emit (Stderr ''No such file or directory'') w1)
          else (Inl e, w1)
      | (Inr u, w1) \<Rightarrow> (Inr u, w1))"

section \<open>The resolution loop\<close>

definition prompt_rpmnew :: string where
  "prompt_rpmnew =
     '' ==> Package distributor has shipped an updated version.'' @ [CHR 0x0A] @
     ''   What would you like to do about it ?  Your options are:'' @ [CHR 0x0A] @
     ''    Y or I  : install the package maintainer's version'' @ [CHR 0x0A] @
     ''    N or O  : keep your currently-installed version'' @ [CHR 0x0A] @
     ''      D     : show the differences between the versions'' @ [CHR 0x0A] @
     ''      M     : merge configuration files'' @ [CHR 0x0A] @
     ''      Z     : background this process to examine the situation'' @ [CHR 0x0A] @
     ''      S     : skip this file'' @ [CHR 0x0A] @
     '' The default action is to keep your current version.'' @ [CHR 0x0A] @
     ''*** aliases (Y/I/N/O/D/M/Z/S) [default=N] ? ''"

definition prompt_rpmsave :: string where
  "prompt_rpmsave =
     '' ==> Package distributor has shipped an updated version.'' @ [CHR 0x0A] @
     '' ==> Maintainer forced upgrade. Your old version has been backed up.'' @ [CHR 0x0A] @
     ''   What would you like to do about it?  Your options are:'' @ [CHR 0x0A] @
     ''    Y or I  : install (keep) the package maintainer's version'' @ [CHR 0x0A] @
     ''    N or O  : return back to your original file'' @ [CHR 0x0A] @
     ''      D     : show the differences between the versions'' @ [CHR 0x0A] @
     ''      M     : merge configuration files'' @ [CHR 0x0A] @
     ''      Z     : background this process to examine the situation'' @ [CHR 0x0A] @
     ''      S     : skip this file'' @ [CHR 0x0A] @
     '' The default action is to keep package maintainer's version.'' @ [CHR 0x0A] @
     ''*** aliases (Y/I/N/O/M/D/Z/S) [default=Y] ? ''"

text \<open>
  One pass through the body of \<^verbatim>\<open>while (option not in ["Y", "I", "N", "O", "S"])\<close>, from the
  answer of \<^verbatim>\<open>flush_input\<close> on. The two loops of the source, in \<^verbatim>\<open>_handle_rpmnew\<close> and in
  \<^verbatim>\<open>_handle_rpmsave\<close>, differ in the option an empty answer stands for (\<open>dflt\<close>) and in the
  order of the two files in \<^verbatim>\<open>show_diff\<close> (\<open>diff1\<close>, \<open>diff2\<close>); the result is the value of
  \<^verbatim>\<open>option\<close> at the end of the pass. For \<^verbatim>\<open>Z\<close> the process sends itself \<^verbatim>\<open>SIGSTOP\<close> and goes on
  from there when it is resumed.
\<close>

definition choice :: "env \<Rightarrow> rpmconf \<Rightarrow> string \<Rightarrow> path \<Rightarrow> path \<Rightarrow> path \<Rightarrow> path
    \<Rightarrow> string io \<Rightarrow> string io" where
  "choice env cfg dflt diff1 diff2 conf_file other_file answer =
     (case answer of (r, inp, w) \<Rightarrow>
        (case (case r of
                 Inl e \<Rightarrow> if e = EOFError then Inr ''S'' else Inl e
               | Inr line \<Rightarrow> Inr (upper line)) of
           Inl e \<Rightarrow> (Inl e, inp, w)
         | Inr option0 \<Rightarrow>
             (let option = (if option0 = [] then dflt else option0) in
              (case (if option = ''D'' then show_diff diff1 diff2 w else (Inr (), w)) of
                 (Inl e, w1) \<Rightarrow> (Inl e, inp, w1)
               | (Inr u, w1) \<Rightarrow>
                   (let w2 = (if option = ''Z''
                              then emit Sigstop (print ''Run command 'fg' to continue'' w1)
                              else w1)
                    in (case (if option = ''M''
                              then merge_conf_files env cfg conf_file other_file w2
                              else (Inr (), w2)) of
                          (Inl e, w3) \<Rightarrow> (Inl e, inp, w3)
                        | (Inr u, w3) \<Rightarrow> (Inr option, inp, w3)))))))"

text \<open>
  The loop. Every pass lists the two files, prints the prompt and reads one line, so the
  recursion is on the lines left; at end of input \<^verbatim>\<open>option\<close> is \<^verbatim>\<open>"S"\<close> and the loop ends.
\<close>

function choice_loop :: "env \<Rightarrow> rpmconf \<Rightarrow> string \<Rightarrow> string \<Rightarrow> path \<Rightarrow> path \<Rightarrow> path \<Rightarrow> path
    \<Rightarrow> string list \<Rightarrow> world \<Rightarrow> string io" where
  "choice_loop env cfg prompt dflt diff1 diff2 conf_file other_file inp w =
     (case ls_conf_file cfg conf_file other_file w of
        (Inl e, w1) \<Rightarrow> (Inl e, inp, w1)
      | (Inr u, w1) \<Rightarrow>
          (case choice env cfg dflt diff1 diff2 conf_file other_file
                  (flush_input ''Your choice: '' inp (print prompt w1)) of
             (Inl e, inp1, w2) \<Rightarrow> (Inl e, inp1, w2)
           | (Inr option, inp1, w2) \<Rightarrow>
               if option \<notin> set [''Y'', ''I'', ''N'', ''O'', ''S'']
               then choice_loop env cfg prompt dflt diff1 diff2 conf_file other_file inp1 w2
               else (Inr option, inp1, w2)))"
  by pat_completeness auto

termination
  by (relation "measure (\<lambda>(env, cfg, prompt, dflt, diff1, diff2, conf_file, other_file, inp, w).
        length inp)")
     (auto simp: choice_def flush_input_def Let_def
       split: list.splits if_splits prod.splits sum.splits)

declare choice_loop.simps [simp del]

section \<open>Resolving one pair\<close>

definition handle_rpmnew :: "env \<Rightarrow> rpmconf \<Rightarrow> path \<Rightarrow> path \<Rightarrow> string list \<Rightarrow> world
    \<Rightarrow> unit io" where
  "handle_rpmnew env cfg conf_file other_file inp w =
     (case filecmp_cmp (fs w) conf_file other_file of
        Inl e \<Rightarrow> (Inl e, inp, w)
      | Inr same \<Rightarrow>
          if same then (case remove cfg other_file w of (r, w1) \<Rightarrow> (r, inp, w1))
          else
            (case choice_loop env cfg prompt_rpmnew ''N'' conf_file other_file
                    conf_file other_file inp w of
               (Inl e, inp1, w1) \<Rightarrow> (Inl e, inp1, w1)
             | (Inr option, inp1, w1) \<Rightarrow>
                 (case (if option \<in> set [''N'', ''O''] then remove cfg other_file w1
                        else (Inr (), w1)) of
                    (Inl e, w2) \<Rightarrow> (Inl e, inp1, w2)
                  | (Inr u, w2) \<Rightarrow>
                      (case (if option \<in> set [''Y'', ''I'']
                             then overwrite cfg other_file conf_file w2
                             else (Inr (), w2)) of
                         (r, w3) \<Rightarrow> (r, inp1, w3)))))"

definition handle_rpmsave :: "env \<Rightarrow> rpmconf \<Rightarrow> path \<Rightarrow> path \<Rightarrow> string list \<Rightarrow> world
    \<Rightarrow> unit io" where
  "handle_rpmsave env cfg conf_file other_file inp w =
     (case filecmp_cmp (fs w) conf_file other_file of
        Inl e \<Rightarrow> (Inl e, inp, w)
      | Inr same \<Rightarrow>
          if same then (case remove cfg other_file w of (r, w1) \<Rightarrow> (r, inp, w1))
          else
            (case choice_loop env cfg prompt_rpmsave ''Y'' other_file conf_file
                    conf_file other_file inp w of
               (Inl e, inp1, w1) \<Rightarrow> (Inl e, inp1, w1)
             | (Inr option, inp1, w1) \<Rightarrow>
                 (case (if option \<in> set [''Y'', ''I''] then remove cfg other_file w1
                        else (Inr (), w1)) of
                    (Inl e, w2) \<Rightarrow> (Inl e, inp1, w2)
                  | (Inr u, w2) \<Rightarrow>
                      (case (if option \<in> set [''N'', ''O'']
                             then overwrite cfg other_file conf_file w2
                             else (Inr (), w2)) of
                         (r, w3) \<Rightarrow> (r, inp1, w3)))))"

section \<open>The package walker\<close>

text \<open>The body of \<^verbatim>\<open>for conf_file in self.get_list_of_config(package)\<close>.\<close>

definition handle_conf_file :: "env \<Rightarrow> rpmconf \<Rightarrow> path \<Rightarrow> string list \<Rightarrow> world \<Rightarrow> unit io" where
  "handle_conf_file env cfg conf_file inp w =
     (if diff cfg then
        (let conf_rpmnew = conf_file @ ''.rpmnew'';
             conf_rpmsave = conf_file @ ''.rpmsave'';
             conf_rpmorig = conf_file @ ''.rpmorig''
         in (case show_cond_diff conf_rpmnew conf_file conf_rpmnew w of
               (Inl e, w1) \<Rightarrow> (Inl e, inp, w1)
             | (Inr u, w1) \<Rightarrow>
                 (case show_cond_diff conf_rpmsave conf_rpmsave conf_file w1 of
                    (Inl e, w2) \<Rightarrow> (Inl e, inp, w2)
                  | (Inr u, w2) \<Rightarrow>
                      (case show_cond_diff conf_rpmorig conf_rpmorig conf_file w2 of
                         (r, w3) \<Rightarrow> (r, inp, w3)))))
      else
        (case (if os_access (fs w) (conf_file @ ''.'' @ ''rpmnew'')
               then handle_rpmnew env cfg conf_file (conf_file @ ''.'' @ ''rpmnew'') inp w
               else (Inr (), inp, w)) of
           (Inl e, inp1, w1) \<Rightarrow> (Inl e, inp1, w1)
         | (Inr u, inp1, w1) \<Rightarrow>
             (case (if os_access (fs w1) (conf_file @ ''.'' @ ''rpmsave'')
                    then handle_rpmsave env cfg conf_file (conf_file @ ''.'' @ ''rpmsave'')
                           inp1 w1
                    else (Inr (), inp1, w1)) of
                (Inl e, inp2, w2) \<Rightarrow> (Inl e, inp2, w2)
              | (Inr u, inp2, w2) \<Rightarrow>
                  (if os_access (fs w2) (conf_file @ ''.'' @ ''rpmorig'')
                   then handle_rpmsave env cfg conf_file (conf_file @ ''.'' @ ''rpmorig'')
                          inp2 w2
                   else (Inr (), inp2, w2)))))"

fun handle_conf_files :: "env \<Rightarrow> rpmconf \<Rightarrow> path list \<Rightarrow> string list \<Rightarrow> world \<Rightarrow> unit io" where
  "handle_conf_files env cfg [] inp w = (Inr (), inp, w)"
| "handle_conf_files env cfg (conf_file # rest) inp w =
     (case handle_conf_file env cfg conf_file inp w of
        (Inl e, inp1, w1) \<Rightarrow> (Inl e, inp1, w1)
      | (Inr u, inp1, w1) \<Rightarrow> handle_conf_files env cfg rest inp1 w1)"

definition handle_package :: "env \<Rightarrow> rpmconf \<Rightarrow> header \<Rightarrow> string list \<Rightarrow> world \<Rightarrow> unit io" where
  "handle_package env cfg package inp w =
     handle_conf_files env cfg (get_list_of_config package) inp w"

section \<open>The orphan scanner\<close>

text \<open>
  \<^verbatim>\<open>_clean_orphan_file\<close>: the list \<^verbatim>\<open>[package_merge, rpmnew_rpmsave_orig, rpmnew_rpmsave]\<close>
  and \<^verbatim>\<open>file_delete\<close>; \<^verbatim>\<open>None\<close> is \<open>None\<close>. Only \<^verbatim>\<open>CalledProcessError\<close> is caught.
\<close>

type_synonym merge_entry = "string option \<times> path \<times> path"

definition clean_orphan_file :: "env \<Rightarrow> filesystem \<Rightarrow> path
    \<Rightarrow> error + (merge_entry \<times> path option)" where
  "clean_orphan_file env f rpmnew_rpmsave =
     (case splitext rpmnew_rpmsave of
        (rpmnew_rpmsave_orig, ext) \<Rightarrow>
          (case rpm_qf env f rpmnew_rpmsave_orig of
             QueryMissing \<Rightarrow> Inl FileNotFoundError
           | QueryExited rc output \<Rightarrow>
               if rc = 0
               then Inr ((Some output, rpmnew_rpmsave_orig, rpmnew_rpmsave), None)
               else Inr ((None, rpmnew_rpmsave_orig, rpmnew_rpmsave), Some rpmnew_rpmsave)))"

text \<open>Python's truth value of a string or \<^verbatim>\<open>None\<close>.\<close>

definition truthy :: "string option \<Rightarrow> bool" where
  "truthy v = (case v of None \<Rightarrow> False | Some s \<Rightarrow> s \<noteq> [])"

text \<open>
  The lists \<^verbatim>\<open>files_merge\<close> and \<^verbatim>\<open>files_delete\<close>. An entry of \<^verbatim>\<open>files_merge\<close> is appended only
  when its package name is true, so it is kept with the name itself.
\<close>

type_synonym found = "(string \<times> path \<times> path) list \<times> path list"

definition collect :: "merge_entry \<times> path option \<Rightarrow> found \<Rightarrow> found" where
  "collect r acc =
     (case (r, acc) of
        (((package_merge, orig, rpmnew_rpmsave), file_delete), (files_merge, files_delete)) \<Rightarrow>
          ((case package_merge of
              None \<Rightarrow> files_merge
            | Some name \<Rightarrow>
                if truthy package_merge then files_merge @ [(name, orig, rpmnew_rpmsave)]
                else files_merge),
           (case file_delete of
              None \<Rightarrow> files_delete
            | Some d \<Rightarrow> if truthy file_delete then files_delete @ [d] else files_delete)))"

text \<open>The body of \<^verbatim>\<open>for name in files\<close>.\<close>

fun scan_files :: "env \<Rightarrow> filesystem \<Rightarrow> path \<Rightarrow> string list \<Rightarrow> found \<Rightarrow> error + found" where
  "scan_files env f root [] acc = Inr acc"
| "scan_files env f root (name # names) acc =
     (let l_name = join root name
      in if snd (splitext l_name) \<in> set [''.rpmnew'', ''.rpmsave'']
         then (case clean_orphan_file env f l_name of
                 Inl e \<Rightarrow> Inl e
               | Inr r \<Rightarrow> scan_files env f root names (collect r acc))
         else scan_files env f root names acc)"

text \<open>The pruning \<^verbatim>\<open>if root == "/var/lib": dirs[:] = [d for d in dirs if d != "mock"]\<close>.\<close>

definition prune_mock :: "path \<Rightarrow> string list \<Rightarrow> string list" where
  "prune_mock root dirs = (if root = ''/var/lib'' then filter (\<lambda>d. d \<noteq> ''mock'') dirs else dirs)"

fun scan_walk :: "env \<Rightarrow> filesystem \<Rightarrow> (path \<times> string list) list \<Rightarrow> found \<Rightarrow> error + found" where
  "scan_walk env f [] acc = Inr acc"
| "scan_walk env f ((root, files) # rest) acc =
     (case scan_files env f root files acc of
        Inl e \<Rightarrow> Inl e
      | Inr acc1 \<Rightarrow> scan_walk env f rest acc1)"

fun scan_topdirs :: "env \<Rightarrow> path list \<Rightarrow> found \<Rightarrow> world \<Rightarrow> found result" where
  "scan_topdirs env [] acc w = (Inr acc, w)"
| "scan_topdirs env (topdir # rest) acc w =
     (let w1 = emit (LogInfo (''Seaching through: '' @ topdir)) w
      in (case scan_walk env (fs w1) (os_walk env (fs w1) topdir prune_mock) acc of
            Inl e \<Rightarrow> (Inl e, w1)
          | Inr acc1 \<Rightarrow> scan_topdirs env rest acc1 w1))"

definition scan :: "env \<Rightarrow> world \<Rightarrow> found result" where
  "scan env w = scan_topdirs env [''/etc'', ''/var'', ''/usr''] ([], []) w"

text \<open>
  The loop \<^verbatim>\<open>while answer not in ["Y", "N", ""]\<close>; no exception is caught in it.
\<close>

function ask_delete :: "string list \<Rightarrow> world \<Rightarrow> string io" where
  "ask_delete inp w =
     (case flush_input ''Delete these files (Y/n): '' inp w of
        (Inl e, inp1, w1) \<Rightarrow> (Inl e, inp1, w1)
      | (Inr line, inp1, w1) \<Rightarrow>
          if upper line \<notin> set [''Y'', ''N'', []]
          then ask_delete inp1 w1
          else (Inr (upper line), inp1, w1))"
  by pat_completeness auto

termination
  by (relation "measure (\<lambda>(inp, w). length inp)")
     (auto simp: flush_input_def split: list.splits)

declare ask_delete.simps [simp del]

fun remove_files :: "rpmconf \<Rightarrow> path list \<Rightarrow> world \<Rightarrow> unit result" where
  "remove_files cfg [] w = (Inr (), w)"
| "remove_files cfg (file_delete # rest) w =
     (case remove cfg file_delete w of
        (Inl e, w1) \<Rightarrow> (Inl e, w1)
      | (Inr u, w1) \<Rightarrow> remove_files cfg rest w1)"

definition report_merge :: "(string \<times> path \<times> path) list \<Rightarrow> world \<Rightarrow> world" where
  "report_merge files_merge w =
     (if files_merge \<noteq> [] then
        print (''Skipping files above.'' @ [CHR 0x0A])
          (foldl (\<lambda>w1 (package_merge, orig, rpmnew_rpmsave).
                    print (ljust 20 package_merge @ '': '' @ rpmnew_rpmsave) w1)
             (print ''These files need merging - you may want to run 'rpmconf -a':'' w)
             files_merge)
      else w)"

definition clean_orphan :: "env \<Rightarrow> rpmconf \<Rightarrow> string list \<Rightarrow> world \<Rightarrow> unit io" where
  "clean_orphan env cfg inp w =
     (case scan env w of
        (Inl e, w1) \<Rightarrow> (Inl e, inp, w1)
      | (Inr (files_merge, files_delete), w1) \<Rightarrow>
          (let w2 = report_merge files_merge w1
           in if files_delete \<noteq> [] then
                (let w3 = foldl (\<lambda>w4 file_delete. print file_delete w4)
                            (print ''Orphaned .rpmnew and .rpmsave files:'' w2) files_delete
                 in (case ask_delete inp w3 of
                       (Inl e, inp1, w4) \<Rightarrow> (Inl e, inp1, w4)
                     | (Inr answer, inp1, w4) \<Rightarrow>
                         if answer \<in> set [''Y'', []]
                         then (case remove_files cfg files_delete w4 of
                                 (r, w5) \<Rightarrow> (r, inp1, w5))
                         else (Inr (), inp1, w4)))
              else (Inr (), inp,
                    print ''No orphaned .rpmnew and .rpmsave files found.'' w2)))"

section \<open>The whole run\<close>

fun handle_headers :: "env \<Rightarrow> rpmconf \<Rightarrow> header list \<Rightarrow> string list \<Rightarrow> world \<Rightarrow> unit io" where
  "handle_headers env cfg [] inp w = (Inr (), inp, w)"
| "handle_headers env cfg (pkg_hdr # rest) inp w =
     (case handle_package env cfg pkg_hdr inp w of
        (Inl e, inp1, w1) \<Rightarrow> (Inl e, inp1, w1)
      | (Inr u, inp1, w1) \<Rightarrow> handle_headers env cfg rest inp1 w1)"

fun handle_packages :: "env \<Rightarrow> rpmconf \<Rightarrow> header list list \<Rightarrow> string list \<Rightarrow> world
    \<Rightarrow> unit io" where
  "handle_packages env cfg [] inp w = (Inr (), inp, w)"
| "handle_packages env cfg (pkg # rest) inp w =
     (case handle_headers env cfg pkg inp w of
        (Inl e, inp1, w1) \<Rightarrow> (Inl e, inp1, w1)
      | (Inr u, inp1, w1) \<Rightarrow> handle_packages env cfg rest inp1 w1)"

definition run :: "env \<Rightarrow> rpmconf \<Rightarrow> string list \<Rightarrow> world \<Rightarrow> unit io" where
  "run env cfg inp w =
     (case handle_packages env cfg (packages cfg) inp w of
        (Inl e, inp1, w1) \<Rightarrow> (Inl e, inp1, w1)
      | (Inr u, inp1, w1) \<Rightarrow>
          if clean cfg then clean_orphan env cfg inp1 w1 else (Inr (), inp1, w1))"

section \<open>Notions the properties are stated with\<close>

text \<open>What one pass shows before it reads the answer.\<close>

definition prompted :: "string \<Rightarrow> rpmconf \<Rightarrow> path \<Rightarrow> path \<Rightarrow> world \<Rightarrow> world" where
  "prompted prompt cfg conf_file other_file w =
     emit (Ask ''Your choice: '')
       (print prompt
          (emit (Listing (selinux cfg) conf_file other_file)
             (print (''Configuration file '' @ [CHR 0x27] @ conf_file @ [CHR 0x27]) w)))"

text \<open>
  The resolution of a pair was skipped when the files were found different and the loop
  ended with the option \<^verbatim>\<open>S\<close>.
\<close>

definition skipped_rpmnew :: "env \<Rightarrow> rpmconf \<Rightarrow> path \<Rightarrow> path \<Rightarrow> string list \<Rightarrow> world \<Rightarrow> bool" where
  "skipped_rpmnew env cfg conf_file other_file inp w =
     (filecmp_cmp (fs w) conf_file other_file = Inr False
      \<and> fst (choice_loop env cfg prompt_rpmnew ''N'' conf_file other_file
               conf_file other_file inp w) = Inr ''S'')"

definition skipped_rpmsave :: "env \<Rightarrow> rpmconf \<Rightarrow> path \<Rightarrow> path \<Rightarrow> string list \<Rightarrow> world \<Rightarrow> bool" where
  "skipped_rpmsave env cfg conf_file other_file inp w =
     (filecmp_cmp (fs w) conf_file other_file = Inr False
      \<and> fst (choice_loop env cfg prompt_rpmsave ''Y'' other_file conf_file
               conf_file other_file inp w) = Inr ''S'')"

text \<open>
  The test of the scan, \<^verbatim>\<open>os.path.splitext(l_name)[1] in [".rpmnew", ".rpmsave"]\<close>, and the
  two outcomes of the ownership lookup on the path without its extension.
\<close>

definition tagged :: "path \<Rightarrow> bool" where
  "tagged l_name = (snd (splitext l_name) \<in> set [''.rpmnew'', ''.rpmsave''])"

definition unowned :: "env \<Rightarrow> filesystem \<Rightarrow> path \<Rightarrow> bool" where
  "unowned env f l_name =
     (case rpm_qf env f (fst (splitext l_name)) of
        QueryMissing \<Rightarrow> False
      | QueryExited rc output \<Rightarrow> rc \<noteq> 0)"

definition owner :: "env \<Rightarrow> filesystem \<Rightarrow> path \<Rightarrow> string option" where
  "owner env f l_name =
     (case rpm_qf env f (fst (splitext l_name)) of
        QueryMissing \<Rightarrow> None
      | QueryExited rc output \<Rightarrow> if rc = 0 then Some output else None)"

text \<open>The paths \<^verbatim>\<open>l_name\<close> that the three nested loops of \<^verbatim>\<open>_clean_orphan\<close> visit, in order.\<close>

definition walk_names :: "env \<Rightarrow> filesystem \<Rightarrow> path list" where
  "walk_names env f =
     concat (map (\<lambda>topdir. concat (map (\<lambda>(root, files). map (join root) files)
                                     (os_walk env f topdir prune_mock)))
               [''/etc'', ''/var'', ''/usr''])"

text \<open>The two assumptions on \<^verbatim>\<open>rpm\<close>: it can be started, and a package has a name.\<close>

definition rpm_installed :: "env \<Rightarrow> bool" where
  "rpm_installed env = (\<forall>f p. rpm_qf env f p \<noteq> QueryMissing)"

definition names_nonempty :: "env \<Rightarrow> bool" where
  "names_nonempty env = (\<forall>f p output. rpm_qf env f p = QueryExited 0 output \<longrightarrow> output \<noteq> [])"

text \<open>
  What the loop body appends to \<^verbatim>\<open>files_merge\<close> and to \<^verbatim>\<open>files_delete\<close> for a list of paths,
  written as list comprehensions.
\<close>

definition merge_entries :: "env \<Rightarrow> filesystem \<Rightarrow> path list \<Rightarrow> (string \<times> path \<times> path) list" where
  "merge_entries env f l_names =
     concat (map (\<lambda>l. case owner env f l of
                         None \<Rightarrow> []
                       | Some name \<Rightarrow> if name \<noteq> [] then [(name, fst (splitext l), l)] else [])
               (filter tagged l_names))"

definition delete_entries :: "env \<Rightarrow> filesystem \<Rightarrow> path list \<Rightarrow> path list" where
  "delete_entries env f l_names = filter (\<lambda>l. tagged l \<and> l \<noteq> [] \<and> unowned env f l) l_names"

text \<open>
  The merge tools are started to change files. \<open>tool_steps env f f'\<close> says that \<open>f'\<close> is
  what a sequence of tool runs makes of \<open>f\<close>: nothing but the tools has written.
\<close>

inductive tool_steps :: "env \<Rightarrow> filesystem \<Rightarrow> filesystem \<Rightarrow> bool" for env where
  same: "tool_steps env f f"
| tool: "run_tool env args f = Exited rc f1 \<Longrightarrow> tool_steps env f1 f2 \<Longrightarrow> tool_steps env f f2"

text \<open>Tools that only look: whatever they are started with, they leave every file as it is.\<close>

definition tools_readonly :: "env \<Rightarrow> bool" where
  "tools_readonly env = (\<forall>args f rc f1. run_tool env args f = Exited rc f1 \<longrightarrow> f1 = f)"

section \<open>Worlds and runs used as examples\<close>

definition no_tools :: env where
  "no_tools =
     \<lparr>run_tool = (\<lambda>args f. ToolMissing), rpm_qf = (\<lambda>f p. QueryExited 1 []),
      os_walk = (\<lambda>f top prune. []), environ_MERGE = None\<rparr>"

definition plain :: rpmconf where
  "plain =
     \<lparr>packages = [], clean = False, debug = False, selinux = False, diff = False,
      frontend = None\<rparr>"

definition dry :: rpmconf where
  "dry = plain\<lparr>debug := True\<rparr>"

text \<open>An unmodified \<^verbatim>\<open>/etc/foo.conf\<close> and an offered update with the same bytes.\<close>

definition foo_same :: world where
  "foo_same =
     \<lparr>fs = [''/etc/foo.conf'' \<mapsto> File ''a=1'' 5, ''/etc/foo.conf.rpmnew'' \<mapsto> File ''a=1'' 7],
      out = []\<rparr>"

text \<open>A modified \<^verbatim>\<open>/etc/foo.conf\<close> and an offered update that differs.\<close>

definition foo_new :: world where
  "foo_new =
     \<lparr>fs = [''/etc/foo.conf'' \<mapsto> File ''a=1'' 5, ''/etc/foo.conf.rpmnew'' \<mapsto> File ''a=22'' 7],
      out = []\<rparr>"

text \<open>A forced \<^verbatim>\<open>/etc/foo.conf\<close> and the backup of the administrator's file.\<close>

definition foo_save :: world where
  "foo_save =
     \<lparr>fs = [''/etc/foo.conf'' \<mapsto> File ''a=22'' 7, ''/etc/foo.conf.rpmsave'' \<mapsto> File ''a=1'' 5],
      out = []\<rparr>"

definition foo_orig :: world where
  "foo_orig =
     \<lparr>fs = [''/etc/foo.conf'' \<mapsto> File ''a=22'' 7, ''/etc/foo.conf.rpmorig'' \<mapsto> File ''a=1'' 5],
      out = []\<rparr>"

text \<open>
  A scan that finds \<^verbatim>\<open>/etc/bar.conf.rpmsave\<close>, whose base file belongs to \<^verbatim>\<open>bar-pkg\<close>, and
  \<^verbatim>\<open>/usr/share/baz.conf.rpmnew\<close> and \<^verbatim>\<open>/usr/share/qux.conf.rpmorig\<close>, whose base files belong
  to no package.
\<close>

definition orphans :: env where
  "orphans =
     \<lparr>run_tool = (\<lambda>args f. ToolMissing),
      rpm_qf = (\<lambda>f p. if p = ''/etc/bar.conf'' then QueryExited 0 ''bar-pkg''
                       else QueryExited 1 (''file '' @ p @ '' is not owned by any package'')),
      os_walk = (\<lambda>f top prune.
                   if top = ''/etc'' then [(''/etc'', [''bar.conf'', ''bar.conf.rpmsave''])]
                   else if top = ''/usr''
                   then [(''/usr'', []),
                         (''/usr/share'', [''baz.conf.rpmnew'', ''qux.conf.rpmorig''])]
                   else []),
      environ_MERGE = None\<rparr>"

definition littered :: world where
  "littered =
     \<lparr>fs = [''/etc/bar.conf'' \<mapsto> File ''b=2'' 7,
            ''/etc/bar.conf.rpmsave'' \<mapsto> File ''b=1'' 5,
            ''/usr/share/baz.conf.rpmnew'' \<mapsto> File ''z=1'' 3,
            ''/usr/share/qux.conf.rpmorig'' \<mapsto> File ''q=1'' 4],
      out = []\<rparr>"

text \<open>
  A package with two configuration files. \<^verbatim>\<open>/etc/a.conf\<close> is gone and only its offered update
  is left; \<^verbatim>\<open>/etc/b.conf\<close> has an offered update with the same bytes.
\<close>

definition two_files :: rpmconf where
  "two_files = plain\<lparr>packages := [[[(''/etc/a.conf'', 1), (''/etc/b.conf'', 1)]]]\<rparr>"

definition vanished :: world where
  "vanished =
     \<lparr>fs = [''/etc/a.conf.rpmnew'' \<mapsto> File ''a=2'' 7,
            ''/etc/b.conf'' \<mapsto> File ''b=1'' 5,
            ''/etc/b.conf.rpmnew'' \<mapsto> File ''b=1'' 8],
      out = []\<rparr>"

text \<open>A tool that shows the two files and writes nothing, and one that saves a merge.\<close>

definition viewer :: env where
  "viewer = no_tools\<lparr>run_tool := (\<lambda>args f. Exited 0 f)\<rparr>"

definition editor :: env where
  "editor =
     no_tools\<lparr>run_tool := (\<lambda>args f.
        case args of
          tool # conf_file # rest \<Rightarrow> Exited 0 (f(conf_file \<mapsto> File ''a=1;b=2'' 9))
        | _ \<Rightarrow> ToolMissing)\<rparr>"

definition with_meld :: rpmconf where
  "with_meld = plain\<lparr>frontend := Some ''meld''\<rparr>"

text \<open>
  A dry run over the one package that owns \<^verbatim>\<open>/etc/foo.conf\<close>, with \<^verbatim>\<open>meld\<close> and with \<^verbatim>\<open>kdiff3\<close>.
\<close>

definition dry_meld :: rpmconf where
  "dry_meld = dry\<lparr>packages := [[[(''/etc/foo.conf'', 1)]]], frontend := Some ''meld''\<rparr>"

definition dry_kdiff3 :: rpmconf where
  "dry_kdiff3 = dry\<lparr>packages := [[[(''/etc/foo.conf'', 1)]]], frontend := Some ''kdiff3''\<rparr>"

section \<open>Facts about the calls and the primitives\<close>

lemma fs_print [simp]: "fs (print s w) = fs w"
  by (simp add: print_def)

lemma fs_emit [simp]: "fs (emit e w) = fs w"
  by (simp add: emit_def)

lemma follow_file: "f p = Some (File c m) \<Longrightarrow> follow f n p = Inr p"
  by (cases n) simp_all

lemma follow_none: "f p = None \<Longrightarrow> follow f n p = Inl FileNotFoundError"
  by (cases n) simp_all

lemma follow_lexists: "follow f n p = Inr q \<Longrightarrow> f p \<noteq> None"
  by (cases n) (auto split: option.splits)

lemma read_file_lexists: "read_file f p = Inr c \<Longrightarrow> f p \<noteq> None"
  by (auto simp: read_file_def os_stat_def split: sum.splits dest: follow_lexists)

lemma filecmp_identical:
  assumes "read_file f p1 = Inr c" and "read_file f p2 = Inr c"
  shows "filecmp_cmp f p1 p2 = Inr True"
  using assms
  by (auto simp: read_file_def filecmp_cmp_def split: sum.splits option.splits node.splits)

lemma filecmp_lexists:
  "filecmp_cmp f p1 p2 = Inr b \<Longrightarrow> lexists f p1 \<and> lexists f p2"
  by (auto simp: filecmp_cmp_def os_stat_def lexists_def split: sum.splits dest: follow_lexists)

lemma os_access_absent: "f p = None \<Longrightarrow> \<not> os_access f p"
  by (simp add: os_access_def os_stat_def follow_none)

lemma remove_debug: "debug cfg \<Longrightarrow> remove cfg p w = (Inr (), print (''rm '' @ p) w)"
  by (simp add: remove_def)

lemma remove_present:
  "\<not> debug cfg \<Longrightarrow> fs w p \<noteq> None \<Longrightarrow> remove cfg p w = (Inr (), w\<lparr>fs := (fs w)(p := None)\<rparr>)"
  by (simp add: remove_def os_unlink_def)

lemma remove_absent:
  "\<not> debug cfg \<Longrightarrow> remove cfg p w = (Inr u, w1) \<Longrightarrow> fs w1 p = None"
  by (auto simp: remove_def os_unlink_def split: if_splits)

lemma overwrite_absent:
  "\<not> debug cfg \<Longrightarrow> overwrite cfg src dst w = (Inr u, w1) \<Longrightarrow> fs w1 src = None"
  by (auto simp: overwrite_def split: prod.splits sum.splits dest: remove_absent)

lemma upper_eq_Nil [simp]: "upper s = [] \<longleftrightarrow> s = []"
  by (cases s rule: upper.cases) simp_all

lemma upper_char_capitals [simp]:
  "upper_char CHR ''Y'' = CHR ''Y''" "upper_char CHR ''N'' = CHR ''N''"
  "upper_char CHR ''S'' = CHR ''S''" "upper_char CHR ''M'' = CHR ''M''"
  "upper_char CHR ''D'' = CHR ''D''" "upper_char CHR ''Z'' = CHR ''Z''"
  "upper_char CHR ''I'' = CHR ''I''" "upper_char CHR ''O'' = CHR ''O''"
  by (simp_all add: upper_char_def)

lemma upper_capitals:
  "upper ''Y'' = ''Y''" "upper ''N'' = ''N''" "upper ''S'' = ''S''" "upper ''M'' = ''M''"
  "upper ''D'' = ''D''" "upper ''Z'' = ''Z''" "upper ''I'' = ''I''" "upper ''O'' = ''O''"
  by simp_all

text \<open>The loop ends only with one of the five options that end it.\<close>

lemma choice_loop_terminal:
  "choice_loop env cfg prompt dflt diff1 diff2 conf_file other_file inp w = (Inr option, inp1, w1)
   \<Longrightarrow> option \<in> set [''Y'', ''I'', ''N'', ''O'', ''S'']"
proof (induction env cfg prompt dflt diff1 diff2 conf_file other_file inp w
    rule: choice_loop.induct)
  case (1 env cfg prompt dflt diff1 diff2 conf_file other_file inp w)
  from "1.prems" show ?case
    by (subst (asm) choice_loop.simps)
       (auto split: prod.splits sum.splits if_splits simp del: set_simps intro: "1.IH")
qed

section \<open>Byte-identical pairs\<close>

text \<open>
  C1 (as amended). For a base file and a variant whose bytes are the same, \<^verbatim>\<open>_handle_rpmnew\<close>
  and \<^verbatim>\<open>_handle_rpmsave\<close> return at once: no line of input is read and nothing is asked or
  listed. Outside dry-run mode the world afterwards is the world before with the variant
  unlinked, so every other path is as it was, the base file among them (the variant's
  path is the base file's path with a suffix). In dry-run mode the filesystem is unchanged
  and the one line \<^verbatim>\<open>rm <variant>\<close> is printed.
\<close>

theorem identical_pair_auto_resolved:
  assumes "read_file (fs w) conf_file = Inr c" and "read_file (fs w) other_file = Inr c"
  shows "handle_rpmnew env cfg conf_file other_file inp w =
           (Inr (), inp,
            if debug cfg then print (''rm '' @ other_file) w
            else w\<lparr>fs := (fs w)(other_file := None)\<rparr>)
       \<and> handle_rpmsave env cfg conf_file other_file inp w =
           (Inr (), inp,
            if debug cfg then print (''rm '' @ other_file) w
            else w\<lparr>fs := (fs w)(other_file := None)\<rparr>)"
  using filecmp_identical [OF assms] read_file_lexists [OF assms(2)]
  by (auto simp: handle_rpmnew_def handle_rpmsave_def remove_def os_unlink_def)

theorem identical_pair_auto_resolved_witness:
  "read_file (fs foo_same) ''/etc/foo.conf'' = Inr ''a=1''
   \<and> read_file (fs foo_same) ''/etc/foo.conf.rpmnew'' = Inr ''a=1''
   \<and> handle_rpmnew no_tools plain ''/etc/foo.conf'' ''/etc/foo.conf.rpmnew'' [''Y''] foo_same
       = (Inr (), [''Y''], foo_same\<lparr>fs := (fs foo_same)(''/etc/foo.conf.rpmnew'' := None)\<rparr>)"
proof -
  have base: "read_file (fs foo_same) ''/etc/foo.conf'' = Inr ''a=1''"
    by (simp add: read_file_def os_stat_def follow_file foo_same_def)
  have variant: "read_file (fs foo_same) ''/etc/foo.conf.rpmnew'' = Inr ''a=1''"
    by (simp add: read_file_def os_stat_def follow_file foo_same_def)
  from identical_pair_auto_resolved [OF base variant, of no_tools plain "[''Y'']"]
  have "handle_rpmnew no_tools plain ''/etc/foo.conf'' ''/etc/foo.conf.rpmnew'' [''Y''] foo_same
       = (Inr (), [''Y''], foo_same\<lparr>fs := (fs foo_same)(''/etc/foo.conf.rpmnew'' := None)\<rparr>)"
    by (simp add: plain_def)
  with base variant show ?thesis by simp
qed

text \<open>
  The claim as written has the variant removed for every such pair. In dry-run mode it is
  still there after the resolution.
\<close>

theorem identical_pair_dry_run_counterexample:
  "read_file (fs foo_same) ''/etc/foo.conf'' = Inr ''a=1''
   \<and> read_file (fs foo_same) ''/etc/foo.conf.rpmnew'' = Inr ''a=1''
   \<and> fs (snd (snd (handle_rpmnew no_tools dry ''/etc/foo.conf'' ''/etc/foo.conf.rpmnew''
          [] foo_same))) ''/etc/foo.conf.rpmnew'' = Some (File ''a=1'' 7)"
  by (simp add: read_file_def os_stat_def follow_file foo_same_def handle_rpmnew_def
      filecmp_cmp_def remove_def dry_def plain_def)

section \<open>The default of each prompt\<close>

lemma follow_create_file: "f p = Some (File c m) \<Longrightarrow> follow_create f n p = Inr p"
  by (cases n) simp_all

lemma follow_create_none: "f p = None \<Longrightarrow> follow_create f n p = Inr p"
  by (cases n) simp_all

lemma choice_loop_Cons:
  "choice_loop env cfg prompt dflt diff1 diff2 conf_file other_file (l # ls) w =
     (case ls_conf_file cfg conf_file other_file w of
        (Inl e, w1) \<Rightarrow> (Inl e, l # ls, w1)
      | (Inr u, w1) \<Rightarrow>
          (case choice env cfg dflt diff1 diff2 conf_file other_file
                  (flush_input ''Your choice: '' (l # ls) (print prompt w1)) of
             (Inl e, inp1, w2) \<Rightarrow> (Inl e, inp1, w2)
           | (Inr option, inp1, w2) \<Rightarrow>
               if option \<notin> set [''Y'', ''I'', ''N'', ''O'', ''S'']
               then choice_loop env cfg prompt dflt diff1 diff2 conf_file other_file inp1 w2
               else (Inr option, inp1, w2)))"
  by (rule choice_loop.simps)

lemma choice_loop_Nil:
  "choice_loop env cfg prompt dflt diff1 diff2 conf_file other_file [] w =
     (case ls_conf_file cfg conf_file other_file w of
        (Inl e, w1) \<Rightarrow> (Inl e, [], w1)
      | (Inr u, w1) \<Rightarrow> (Inr ''S'', [], emit (Ask ''Your choice: '') (print prompt w1)))"
  by (subst choice_loop.simps)
     (simp add: flush_input_def choice_def split: prod.splits sum.splits)

lemma fs_prompted [simp]: "fs (prompted prompt cfg conf_file other_file w) = fs w"
  by (simp add: prompted_def)

text \<open>
  C2 (as amended). At every prompt of the resolution loop an empty line is the default of
  the template: the pass of the loop of \<^verbatim>\<open>_handle_rpmnew\<close> does with an empty answer
  exactly what it does with \<^verbatim>\<open>N\<close>, that of \<^verbatim>\<open>_handle_rpmsave\<close> exactly what it does with
  \<^verbatim>\<open>Y\<close>. When the two files differ and the first answer is empty, both handlers end after
  that one prompt with nothing copied into the base file: outside dry-run mode the variant
  is unlinked and every other path is as it was, in dry-run mode the filesystem is
  unchanged and \<^verbatim>\<open>rm <variant>\<close> is printed.
\<close>

theorem empty_input_selects_default:
  "choice env cfg ''N'' conf_file other_file conf_file other_file
      (flush_input ''Your choice: '' ([] # inp) w)
     = choice env cfg ''N'' conf_file other_file conf_file other_file
         (flush_input ''Your choice: '' (''N'' # inp) w)
   \<and> choice env cfg ''Y'' other_file conf_file conf_file other_file
        (flush_input ''Your choice: '' ([] # inp) w)
     = choice env cfg ''Y'' other_file conf_file conf_file other_file
         (flush_input ''Your choice: '' (''Y'' # inp) w)
   \<and> (filecmp_cmp (fs w) conf_file other_file = Inr False \<longrightarrow>
        handle_rpmnew env cfg conf_file other_file ([] # inp) w =
          (Inr (), inp,
           if debug cfg
           then print (''rm '' @ other_file) (prompted prompt_rpmnew cfg conf_file other_file w)
           else (prompted prompt_rpmnew cfg conf_file other_file w)
                  \<lparr>fs := (fs w)(other_file := None)\<rparr>)
        \<and> handle_rpmsave env cfg conf_file other_file ([] # inp) w =
          (Inr (), inp,
           if debug cfg
           then print (''rm '' @ other_file) (prompted prompt_rpmsave cfg conf_file other_file w)
           else (prompted prompt_rpmsave cfg conf_file other_file w)
                  \<lparr>fs := (fs w)(other_file := None)\<rparr>))"
proof (intro conjI impI)
  show "choice env cfg ''N'' conf_file other_file conf_file other_file
      (flush_input ''Your choice: '' ([] # inp) w)
     = choice env cfg ''N'' conf_file other_file conf_file other_file
         (flush_input ''Your choice: '' (''N'' # inp) w)"
    by (simp add: flush_input_def choice_def)
  show "choice env cfg ''Y'' other_file conf_file conf_file other_file
        (flush_input ''Your choice: '' ([] # inp) w)
     = choice env cfg ''Y'' other_file conf_file conf_file other_file
         (flush_input ''Your choice: '' (''Y'' # inp) w)"
    by (simp add: flush_input_def choice_def)
next
  assume differ: "filecmp_cmp (fs w) conf_file other_file = Inr False"
  then have present: "fs w conf_file \<noteq> None" "fs w other_file \<noteq> None"
    using filecmp_lexists [of "fs w" conf_file other_file False] by (simp_all add: lexists_def)
  from differ present
  show "handle_rpmnew env cfg conf_file other_file ([] # inp) w =
          (Inr (), inp,
           if debug cfg
           then print (''rm '' @ other_file) (prompted prompt_rpmnew cfg conf_file other_file w)
           else (prompted prompt_rpmnew cfg conf_file other_file w)
                  \<lparr>fs := (fs w)(other_file := None)\<rparr>)"
    by (auto simp: handle_rpmnew_def choice_loop_Cons ls_conf_file_def lexists_def
        flush_input_def choice_def prompted_def remove_def os_unlink_def)
  from differ present
  show "handle_rpmsave env cfg conf_file other_file ([] # inp) w =
          (Inr (), inp,
           if debug cfg
           then print (''rm '' @ other_file) (prompted prompt_rpmsave cfg conf_file other_file w)
           else (prompted prompt_rpmsave cfg conf_file other_file w)
                  \<lparr>fs := (fs w)(other_file := None)\<rparr>)"
    by (auto simp: handle_rpmsave_def choice_loop_Cons ls_conf_file_def lexists_def
        flush_input_def choice_def prompted_def remove_def os_unlink_def)
qed

theorem empty_input_selects_default_witness:
  "filecmp_cmp (fs foo_new) ''/etc/foo.conf'' ''/etc/foo.conf.rpmnew'' = Inr False
   \<and> handle_rpmnew no_tools plain ''/etc/foo.conf'' ''/etc/foo.conf.rpmnew'' [[]] foo_new =
       (Inr (), [],
        (prompted prompt_rpmnew plain ''/etc/foo.conf'' ''/etc/foo.conf.rpmnew'' foo_new)
          \<lparr>fs := (fs foo_new)(''/etc/foo.conf.rpmnew'' := None)\<rparr>)
   \<and> filecmp_cmp (fs foo_save) ''/etc/foo.conf'' ''/etc/foo.conf.rpmsave'' = Inr False
   \<and> handle_rpmsave no_tools plain ''/etc/foo.conf'' ''/etc/foo.conf.rpmsave'' [[]] foo_save =
       (Inr (), [],
        (prompted prompt_rpmsave plain ''/etc/foo.conf'' ''/etc/foo.conf.rpmsave'' foo_save)
          \<lparr>fs := (fs foo_save)(''/etc/foo.conf.rpmsave'' := None)\<rparr>)"
proof -
  have new: "filecmp_cmp (fs foo_new) ''/etc/foo.conf'' ''/etc/foo.conf.rpmnew'' = Inr False"
    by (simp add: filecmp_cmp_def os_stat_def follow_file foo_new_def)
  have save: "filecmp_cmp (fs foo_save) ''/etc/foo.conf'' ''/etc/foo.conf.rpmsave'' = Inr False"
    by (simp add: filecmp_cmp_def os_stat_def follow_file foo_save_def)
  from new save
    empty_input_selects_default [of no_tools plain "''/etc/foo.conf''"
      "''/etc/foo.conf.rpmnew''" "[]" foo_new]
    empty_input_selects_default [of no_tools plain "''/etc/foo.conf''"
      "''/etc/foo.conf.rpmsave''" "[]" foo_save]
  show ?thesis by (simp add: plain_def)
qed

text \<open>
  The claim as written has the variant removed by the default of every prompt. In dry-run
  mode the default \<^verbatim>\<open>Y\<close> of the saved-variant prompt leaves the variant where it is.
\<close>

theorem default_dry_run_counterexample:
  "filecmp_cmp (fs foo_save) ''/etc/foo.conf'' ''/etc/foo.conf.rpmsave'' = Inr False
   \<and> fst (handle_rpmsave no_tools dry ''/etc/foo.conf'' ''/etc/foo.conf.rpmsave''
          [[]] foo_save) = Inr ()
   \<and> fs (snd (snd (handle_rpmsave no_tools dry ''/etc/foo.conf'' ''/etc/foo.conf.rpmsave''
          [[]] foo_save))) ''/etc/foo.conf.rpmsave'' = Some (File ''a=1'' 5)"
  by (simp add: filecmp_cmp_def os_stat_def follow_file foo_save_def handle_rpmsave_def
      choice_loop_Cons ls_conf_file_def lexists_def flush_input_def choice_def remove_def
      dry_def plain_def)

section \<open>After a resolution that is not a skip\<close>

lemma handle_rpmnew_absent:
  assumes "\<not> debug cfg"
    and "handle_rpmnew env cfg conf_file other_file inp w = (Inr (), inp1, w1)"
    and "\<not> skipped_rpmnew env cfg conf_file other_file inp w"
  shows "fs w1 other_file = None"
proof (cases "filecmp_cmp (fs w) conf_file other_file")
  case (Inl e)
  with assms(2) show ?thesis by (simp add: handle_rpmnew_def)
next
  case (Inr same)
  show ?thesis
  proof (cases same)
    case True
    with Inr assms(1,2) show ?thesis
      by (auto simp: handle_rpmnew_def split: prod.splits dest: remove_absent)
  next
    case False
    obtain r inp2 w2 where loop:
      "choice_loop env cfg prompt_rpmnew ''N'' conf_file other_file conf_file other_file inp w
         = (r, inp2, w2)"
      by (cases "choice_loop env cfg prompt_rpmnew ''N'' conf_file other_file
            conf_file other_file inp w") auto
    with Inr False assms(2) obtain option where r: "r = Inr option"
      by (cases r) (auto simp: handle_rpmnew_def)
    from loop r have "option \<in> set [''Y'', ''I'', ''N'', ''O'', ''S'']"
      by (auto dest: choice_loop_terminal simp del: set_simps)
    moreover from assms(3) Inr False loop r have "option \<noteq> ''S''"
      by (simp add: skipped_rpmnew_def)
    ultimately have "option \<in> set [''N'', ''O''] \<or> option \<in> set [''Y'', ''I'']"
      by auto
    with Inr False loop r assms(1,2) show ?thesis
      by (auto simp: handle_rpmnew_def split: prod.splits sum.splits if_splits
          dest: remove_absent overwrite_absent)
  qed
qed

lemma handle_rpmsave_absent:
  assumes "\<not> debug cfg"
    and "handle_rpmsave env cfg conf_file other_file inp w = (Inr (), inp1, w1)"
    and "\<not> skipped_rpmsave env cfg conf_file other_file inp w"
  shows "fs w1 other_file = None"
proof (cases "filecmp_cmp (fs w) conf_file other_file")
  case (Inl e)
  with assms(2) show ?thesis by (simp add: handle_rpmsave_def)
next
  case (Inr same)
  show ?thesis
  proof (cases same)
    case True
    with Inr assms(1,2) show ?thesis
      by (auto simp: handle_rpmsave_def split: prod.splits dest: remove_absent)
  next
    case False
    obtain r inp2 w2 where loop:
      "choice_loop env cfg prompt_rpmsave ''Y'' other_file conf_file conf_file other_file inp w
         = (r, inp2, w2)"
      by (cases "choice_loop env cfg prompt_rpmsave ''Y'' other_file conf_file
            conf_file other_file inp w") auto
    with Inr False assms(2) obtain option where r: "r = Inr option"
      by (cases r) (auto simp: handle_rpmsave_def)
    from loop r have "option \<in> set [''Y'', ''I'', ''N'', ''O'', ''S'']"
      by (auto dest: choice_loop_terminal simp del: set_simps)
    moreover from assms(3) Inr False loop r have "option \<noteq> ''S''"
      by (simp add: skipped_rpmsave_def)
    ultimately have "option \<in> set [''N'', ''O''] \<or> option \<in> set [''Y'', ''I'']"
      by auto
    with Inr False loop r assms(1,2) show ?thesis
      by (auto simp: handle_rpmsave_def split: prod.splits sum.splits if_splits
          dest: remove_absent overwrite_absent)
  qed
qed

text \<open>
  C3. Outside dry-run mode, when \<^verbatim>\<open>_handle_rpmnew\<close> or \<^verbatim>\<open>_handle_rpmsave\<close> returns and the pair
  was not skipped (the files were identical, or the loop ended with \<^verbatim>\<open>Y\<close>, \<^verbatim>\<open>I\<close>, \<^verbatim>\<open>N\<close> or
  \<^verbatim>\<open>O\<close>), the variant path is absent from the filesystem, and the existence check
  \<^verbatim>\<open>os.access(variant, os.F_OK)\<close> of a later pass over the package no longer finds it.
\<close>

theorem variant_absent_after_resolution:
  assumes "\<not> debug cfg"
  shows "(handle_rpmnew env cfg conf_file other_file inp w = (Inr (), inp1, w1)
            \<and> \<not> skipped_rpmnew env cfg conf_file other_file inp w
          \<longrightarrow> fs w1 other_file = None \<and> \<not> os_access (fs w1) other_file)
       \<and> (handle_rpmsave env cfg conf_file other_file inp w = (Inr (), inp1, w1)
            \<and> \<not> skipped_rpmsave env cfg conf_file other_file inp w
          \<longrightarrow> fs w1 other_file = None \<and> \<not> os_access (fs w1) other_file)"
  using assms handle_rpmnew_absent [of cfg env conf_file other_file inp w inp1 w1]
    handle_rpmsave_absent [of cfg env conf_file other_file inp w inp1 w1]
  by (auto dest: os_access_absent)

lemma accept_update:
  "handle_rpmnew no_tools plain ''/etc/foo.conf'' ''/etc/foo.conf.rpmnew'' [''y''] foo_new =
     (Inr (), [],
      (prompted prompt_rpmnew plain ''/etc/foo.conf'' ''/etc/foo.conf.rpmnew'' foo_new)
        \<lparr>fs := [''/etc/foo.conf'' \<mapsto> File ''a=22'' 7]\<rparr>)"
  by (simp add: handle_rpmnew_def filecmp_cmp_def os_stat_def follow_file follow_create_file
      foo_new_def choice_loop_Cons ls_conf_file_def lexists_def flush_input_def choice_def
      upper_char_def prompted_def overwrite_def copy_def islink_def shutil_copy2_def
      remove_def os_unlink_def plain_def fun_upd_twist)

lemma restore_backup:
  "handle_rpmsave no_tools plain ''/etc/foo.conf'' ''/etc/foo.conf.rpmsave'' [''N''] foo_save =
     (Inr (), [],
      (prompted prompt_rpmsave plain ''/etc/foo.conf'' ''/etc/foo.conf.rpmsave'' foo_save)
        \<lparr>fs := [''/etc/foo.conf'' \<mapsto> File ''a=1'' 5]\<rparr>)"
  by (simp add: handle_rpmsave_def filecmp_cmp_def os_stat_def follow_file follow_create_file
      foo_save_def choice_loop_Cons ls_conf_file_def lexists_def flush_input_def choice_def
      prompted_def overwrite_def copy_def islink_def shutil_copy2_def
      remove_def os_unlink_def plain_def fun_upd_twist)

theorem variant_absent_after_resolution_witness:
  "\<not> debug plain
   \<and> handle_rpmnew no_tools plain ''/etc/foo.conf'' ''/etc/foo.conf.rpmnew'' [''y''] foo_new =
       (Inr (), [],
        (prompted prompt_rpmnew plain ''/etc/foo.conf'' ''/etc/foo.conf.rpmnew'' foo_new)
          \<lparr>fs := [''/etc/foo.conf'' \<mapsto> File ''a=22'' 7]\<rparr>)
   \<and> \<not> skipped_rpmnew no_tools plain ''/etc/foo.conf'' ''/etc/foo.conf.rpmnew'' [''y''] foo_new
   \<and> \<not> os_access [''/etc/foo.conf'' \<mapsto> File ''a=22'' 7] ''/etc/foo.conf.rpmnew''
   \<and> handle_rpmsave no_tools plain ''/etc/foo.conf'' ''/etc/foo.conf.rpmsave'' [''N''] foo_save =
       (Inr (), [],
        (prompted prompt_rpmsave plain ''/etc/foo.conf'' ''/etc/foo.conf.rpmsave'' foo_save)
          \<lparr>fs := [''/etc/foo.conf'' \<mapsto> File ''a=1'' 5]\<rparr>)
   \<and> \<not> skipped_rpmsave no_tools plain ''/etc/foo.conf'' ''/etc/foo.conf.rpmsave'' [''N''] foo_save
   \<and> \<not> os_access [''/etc/foo.conf'' \<mapsto> File ''a=1'' 5] ''/etc/foo.conf.rpmsave''"
proof -
  have mode: "\<not> debug plain"
    by (simp add: plain_def)
  have new: "\<not> skipped_rpmnew no_tools plain ''/etc/foo.conf'' ''/etc/foo.conf.rpmnew''
      [''y''] foo_new"
    by (simp add: skipped_rpmnew_def choice_loop_Cons ls_conf_file_def lexists_def
        foo_new_def flush_input_def choice_def upper_char_def)
  have save: "\<not> skipped_rpmsave no_tools plain ''/etc/foo.conf'' ''/etc/foo.conf.rpmsave''
      [''N''] foo_save"
    by (simp add: skipped_rpmsave_def choice_loop_Cons ls_conf_file_def lexists_def
        foo_save_def flush_input_def choice_def)
  from mode new save accept_update restore_backup
    variant_absent_after_resolution [OF mode, of no_tools "''/etc/foo.conf''"
      "''/etc/foo.conf.rpmnew''" "[''y'']" foo_new "[]"
      "(prompted prompt_rpmnew plain ''/etc/foo.conf'' ''/etc/foo.conf.rpmnew'' foo_new)
          \<lparr>fs := [''/etc/foo.conf'' \<mapsto> File ''a=22'' 7]\<rparr>"]
    variant_absent_after_resolution [OF mode, of no_tools "''/etc/foo.conf''"
      "''/etc/foo.conf.rpmsave''" "[''N'']" foo_save "[]"
      "(prompted prompt_rpmsave plain ''/etc/foo.conf'' ''/etc/foo.conf.rpmsave'' foo_save)
          \<lparr>fs := [''/etc/foo.conf'' \<mapsto> File ''a=1'' 5]\<rparr>"]
  show ?thesis by simp
qed

section \<open>End of input\<close>

lemma splitext_examples:
  "splitext ''/etc/bar.conf'' = (''/etc/bar'', ''.conf'')"
  "splitext ''/etc/bar.conf.rpmsave'' = (''/etc/bar.conf'', ''.rpmsave'')"
  "splitext ''/usr/share/baz.conf.rpmnew'' = (''/usr/share/baz.conf'', ''.rpmnew'')"
  "splitext ''/usr/share/qux.conf.rpmorig'' = (''/usr/share/qux.conf'', ''.rpmorig'')"
  by (simp_all add: splitext_def rfind_def)

lemma scan_littered:
  "scan orphans littered =
     (Inr ([(''bar-pkg'', ''/etc/bar.conf'', ''/etc/bar.conf.rpmsave'')],
           [''/usr/share/baz.conf.rpmnew'']),
      emit (LogInfo ''Seaching through: /usr'')
        (emit (LogInfo ''Seaching through: /var'')
           (emit (LogInfo ''Seaching through: /etc'') littered)))"
  by (simp add: scan_def orphans_def join_def splitext_examples clean_orphan_file_def
      collect_def truthy_def)

text \<open>
  C4 (a defect of the code). At end of input the two resolution prompts skip the pair and
  return, but the confirmation prompt of \<^verbatim>\<open>_clean_orphan\<close> lets \<^verbatim>\<open>EOFError\<close> escape.
\<close>

theorem end_of_input_escapes_clean_orphan:
  "handle_rpmnew no_tools plain ''/etc/foo.conf'' ''/etc/foo.conf.rpmnew'' [] foo_new =
     (Inr (), [], prompted prompt_rpmnew plain ''/etc/foo.conf'' ''/etc/foo.conf.rpmnew'' foo_new)
   \<and> handle_rpmsave no_tools plain ''/etc/foo.conf'' ''/etc/foo.conf.rpmsave'' [] foo_save =
     (Inr (), [], prompted prompt_rpmsave plain ''/etc/foo.conf'' ''/etc/foo.conf.rpmsave'' foo_save)
   \<and> fst (clean_orphan orphans plain [] littered) = Inl EOFError"
proof (intro conjI)
  show "handle_rpmnew no_tools plain ''/etc/foo.conf'' ''/etc/foo.conf.rpmnew'' [] foo_new =
     (Inr (), [], prompted prompt_rpmnew plain ''/etc/foo.conf'' ''/etc/foo.conf.rpmnew'' foo_new)"
    by (simp add: handle_rpmnew_def filecmp_cmp_def os_stat_def follow_file foo_new_def
        choice_loop_Nil ls_conf_file_def lexists_def prompted_def)
  show "handle_rpmsave no_tools plain ''/etc/foo.conf'' ''/etc/foo.conf.rpmsave'' [] foo_save =
     (Inr (), [], prompted prompt_rpmsave plain ''/etc/foo.conf'' ''/etc/foo.conf.rpmsave'' foo_save)"
    by (simp add: handle_rpmsave_def filecmp_cmp_def os_stat_def follow_file foo_save_def
        choice_loop_Nil ls_conf_file_def lexists_def prompted_def)
  show "fst (clean_orphan orphans plain [] littered) = Inl EOFError"
    by (simp add: clean_orphan_def scan_littered ask_delete.simps flush_input_def)
qed

section \<open>A failure while one file is handled\<close>

lemma a_conf_fails:
  "handle_conf_file no_tools two_files ''/etc/a.conf'' [] vanished
     = (Inl FileNotFoundError, [], vanished)"
  by (simp add: handle_conf_file_def two_files_def plain_def vanished_def os_access_def
      os_stat_def follow_file follow_none handle_rpmnew_def filecmp_cmp_def)

text \<open>
  The claim as written has the failure of one file leave the others to be processed. The
  run ends with the exception of the first file, and the pair of the second file, which
  its own handling would resolve, is left as it was.
\<close>

theorem failure_aborts_run_counterexample:
  "run no_tools two_files [] vanished = (Inl FileNotFoundError, [], vanished)
   \<and> handle_conf_file no_tools two_files ''/etc/b.conf'' [] vanished
       = (Inr (), [], vanished\<lparr>fs := (fs vanished)(''/etc/b.conf.rpmnew'' := None)\<rparr>)"
proof
  have "packages two_files = [[[(''/etc/a.conf'', 1), (''/etc/b.conf'', 1)]]]"
    by (simp add: two_files_def)
  then have "handle_packages no_tools two_files (packages two_files) [] vanished
          = (Inl FileNotFoundError, [], vanished)"
    by (simp add: handle_package_def get_list_of_config_def RPMFILE_CONFIG_def a_conf_fails)
  then show "run no_tools two_files [] vanished = (Inl FileNotFoundError, [], vanished)"
    by (simp add: run_def)
  show "handle_conf_file no_tools two_files ''/etc/b.conf'' [] vanished
       = (Inr (), [], vanished\<lparr>fs := (fs vanished)(''/etc/b.conf.rpmnew'' := None)\<rparr>)"
    by (simp add: handle_conf_file_def two_files_def plain_def vanished_def os_access_def
        os_stat_def follow_file follow_none handle_rpmnew_def filecmp_cmp_def remove_def
        os_unlink_def)
qed

text \<open>
  C5 (as amended). Nothing in the program catches an input or output failure: when the
  handling of one configuration file raises, the loop over the configuration files of the
  package ends with that exception and the files after it are not handled; the same holds
  for the loop over the headers, for the loop over the packages, and for \<^verbatim>\<open>run\<close>, which then
  does not start the orphan scan.
\<close>

theorem failure_aborts_run:
  "(handle_conf_file env cfg conf_file inp w = (Inl e, inp1, w1)
      \<longrightarrow> handle_conf_files env cfg (conf_file # conf_files) inp w = (Inl e, inp1, w1))
   \<and> (handle_package env cfg pkg_hdr inp w = (Inl e, inp1, w1)
      \<longrightarrow> handle_headers env cfg (pkg_hdr # pkg) inp w = (Inl e, inp1, w1))
   \<and> (handle_headers env cfg pkg inp w = (Inl e, inp1, w1)
      \<longrightarrow> handle_packages env cfg (pkg # pkgs) inp w = (Inl e, inp1, w1))
   \<and> (handle_packages env cfg (packages cfg) inp w = (Inl e, inp1, w1)
      \<longrightarrow> run env cfg inp w = (Inl e, inp1, w1))"
  by (simp add: run_def)

theorem failure_aborts_run_witness:
  "handle_conf_file no_tools two_files ''/etc/a.conf'' [] vanished
     = (Inl FileNotFoundError, [], vanished)
   \<and> handle_conf_files no_tools two_files [''/etc/a.conf'', ''/etc/b.conf''] [] vanished
     = (Inl FileNotFoundError, [], vanished)
   \<and> handle_package no_tools two_files [(''/etc/a.conf'', 1), (''/etc/b.conf'', 1)] [] vanished
     = (Inl FileNotFoundError, [], vanished)
   \<and> handle_headers no_tools two_files [[(''/etc/a.conf'', 1), (''/etc/b.conf'', 1)]] [] vanished
     = (Inl FileNotFoundError, [], vanished)
   \<and> handle_packages no_tools two_files (packages two_files) [] vanished
     = (Inl FileNotFoundError, [], vanished)
   \<and> run no_tools two_files [] vanished = (Inl FileNotFoundError, [], vanished)"
proof -
  have files: "handle_conf_files no_tools two_files [''/etc/a.conf'', ''/etc/b.conf''] [] vanished
     = (Inl FileNotFoundError, [], vanished)"
    using a_conf_fails
      failure_aborts_run [where env = no_tools and cfg = two_files
        and conf_file = "''/etc/a.conf''" and inp = "[]" and w = vanished
        and e = FileNotFoundError and ?inp1.0 = "[]" and ?w1.0 = vanished
        and conf_files = "[''/etc/b.conf'']"]
    by simp
  then have package:
    "handle_package no_tools two_files [(''/etc/a.conf'', 1), (''/etc/b.conf'', 1)] [] vanished
       = (Inl FileNotFoundError, [], vanished)"
    by (simp add: handle_package_def get_list_of_config_def RPMFILE_CONFIG_def)
  then have headers:
    "handle_headers no_tools two_files [[(''/etc/a.conf'', 1), (''/etc/b.conf'', 1)]] [] vanished
       = (Inl FileNotFoundError, [], vanished)"
    using failure_aborts_run [where env = no_tools and cfg = two_files
        and inp = "[]" and w = vanished
        and e = FileNotFoundError and ?inp1.0 = "[]" and ?w1.0 = vanished
        and pkg_hdr = "[(''/etc/a.conf'', 1), (''/etc/b.conf'', 1)]" and pkg = "[]"]
    by simp
  then have packages:
    "handle_packages no_tools two_files (packages two_files) [] vanished
       = (Inl FileNotFoundError, [], vanished)"
    by (simp add: two_files_def)
  then have "run no_tools two_files [] vanished = (Inl FileNotFoundError, [], vanished)"
    using failure_aborts_run [where env = no_tools and cfg = two_files
        and inp = "[]" and w = vanished
        and e = FileNotFoundError and ?inp1.0 = "[]" and ?w1.0 = vanished]
    by simp
  with a_conf_fails files package headers packages show ?thesis by simp
qed

section \<open>What the orphan scan collects\<close>

lemma merge_entries_append:
  "merge_entries env f (xs @ ys) = merge_entries env f xs @ merge_entries env f ys"
  by (simp add: merge_entries_def)

lemma delete_entries_append:
  "delete_entries env f (xs @ ys) = delete_entries env f xs @ delete_entries env f ys"
  by (simp add: delete_entries_def)

lemma scan_files_collects:
  "scan_files env f root names (files_merge, files_delete) = Inr (fm, fd)
   \<Longrightarrow> fm = files_merge @ merge_entries env f (map (join root) names)
     \<and> fd = files_delete @ delete_entries env f (map (join root) names)"
proof (induction names arbitrary: files_merge files_delete)
  case Nil
  then show ?case by (simp add: merge_entries_def delete_entries_def)
next
  case (Cons name names)
  show ?case
  proof (cases "tagged (join root name)")
    case False
    with Cons.prems have "scan_files env f root names (files_merge, files_delete) = Inr (fm, fd)"
      by (simp add: tagged_def)
    from Cons.IH [OF this] False show ?thesis
      by (simp add: merge_entries_def delete_entries_def)
  next
    case True
    with Cons.prems obtain r where
      r: "clean_orphan_file env f (join root name) = Inr r"
      and rest: "scan_files env f root names (collect r (files_merge, files_delete)) = Inr (fm, fd)"
      by (auto simp: tagged_def Let_def split: sum.splits)
    obtain fm1 fd1 where c: "collect r (files_merge, files_delete) = (fm1, fd1)"
      by (cases "collect r (files_merge, files_delete)") auto
    from r c True have
      "fm1 = files_merge @ merge_entries env f [join root name]
       \<and> fd1 = files_delete @ delete_entries env f [join root name]"
      by (auto simp: clean_orphan_file_def collect_def truthy_def merge_entries_def
          delete_entries_def owner_def unowned_def
          split: prod.splits query.splits if_splits)
    moreover from rest c have "fm = fm1 @ merge_entries env f (map (join root) names)
       \<and> fd = fd1 @ delete_entries env f (map (join root) names)"
      using Cons.IH [of fm1 fd1] by simp
    ultimately show ?thesis
      using merge_entries_append [of env f "[join root name]" "map (join root) names"]
        delete_entries_append [of env f "[join root name]" "map (join root) names"]
      by simp
  qed
qed

lemma scan_walk_collects:
  "scan_walk env f walk (files_merge, files_delete) = Inr (fm, fd)
   \<Longrightarrow> fm = files_merge
            @ merge_entries env f (concat (map (\<lambda>(root, files). map (join root) files) walk))
     \<and> fd = files_delete
            @ delete_entries env f (concat (map (\<lambda>(root, files). map (join root) files) walk))"
proof (induction walk arbitrary: files_merge files_delete)
  case Nil
  then show ?case by (simp add: merge_entries_def delete_entries_def)
next
  case (Cons entry walk)
  obtain root files where entry: "entry = (root, files)"
    by (cases entry) auto
  with Cons.prems obtain fm1 fd1 where
    first: "scan_files env f root files (files_merge, files_delete) = Inr (fm1, fd1)"
    and rest: "scan_walk env f walk (fm1, fd1) = Inr (fm, fd)"
    by (auto split: sum.splits)
  from scan_files_collects [OF first] Cons.IH [OF rest] entry show ?case
    by (simp add: merge_entries_append delete_entries_append)
qed

lemma scan_topdirs_collects:
  "scan_topdirs env topdirs (files_merge, files_delete) w = (Inr (fm, fd), w1)
   \<Longrightarrow> fs w1 = fs w
     \<and> fm = files_merge
          @ merge_entries env (fs w)
              (concat (map (\<lambda>topdir. concat (map (\<lambda>(root, files). map (join root) files)
                                              (os_walk env (fs w) topdir prune_mock)))
                         topdirs))
     \<and> fd = files_delete
          @ delete_entries env (fs w)
              (concat (map (\<lambda>topdir. concat (map (\<lambda>(root, files). map (join root) files)
                                              (os_walk env (fs w) topdir prune_mock)))
                         topdirs))"
proof (induction topdirs arbitrary: files_merge files_delete w)
  case Nil
  then show ?case by (simp add: merge_entries_def delete_entries_def)
next
  case (Cons topdir topdirs)
  let ?w1 = "emit (LogInfo (''Seaching through: '' @ topdir)) w"
  from Cons.prems obtain fm1 fd1 where
    first: "scan_walk env (fs w) (os_walk env (fs w) topdir prune_mock)
              (files_merge, files_delete) = Inr (fm1, fd1)"
    and rest: "scan_topdirs env topdirs (fm1, fd1) ?w1 = (Inr (fm, fd), w1)"
    by (auto simp: Let_def split: sum.splits)
  from scan_walk_collects [OF first] Cons.IH [OF rest] show ?case
    by (simp add: merge_entries_append delete_entries_append)
qed

lemma scan_collects:
  assumes "scan env w = (Inr (files_merge, files_delete), w1)"
  shows "fs w1 = fs w"
    and "files_merge = merge_entries env (fs w) (walk_names env (fs w))"
    and "files_delete = delete_entries env (fs w) (walk_names env (fs w))"
  using scan_topdirs_collects [of env "[''/etc'', ''/var'', ''/usr'']" "[]" "[]" w
      files_merge files_delete w1] assms
  by (simp_all add: scan_def walk_names_def)

lemma scan_fs: "scan env w = (r, w1) \<Longrightarrow> fs w1 = fs w"
  by (auto simp: scan_def Let_def split: sum.splits)

lemma scan_files_returns:
  "rpm_installed env \<Longrightarrow> \<exists>found. scan_files env f root names acc = Inr found"
  by (induction names arbitrary: acc)
     (auto simp: Let_def clean_orphan_file_def rpm_installed_def
       split: sum.splits prod.splits query.splits)

lemma scan_walk_returns:
  "rpm_installed env \<Longrightarrow> \<exists>found. scan_walk env f walk acc = Inr found"
proof (induction walk arbitrary: acc)
  case Nil
  then show ?case by simp
next
  case (Cons entry walk)
  obtain root files where "entry = (root, files)"
    by (cases entry) auto
  moreover from Cons.prems obtain found where "scan_files env f root files acc = Inr found"
    using scan_files_returns by blast
  ultimately show ?case
    using Cons.IH [OF Cons.prems, of found] by simp
qed

lemma scan_topdirs_returns:
  "rpm_installed env \<Longrightarrow> \<exists>found w1. scan_topdirs env topdirs acc w = (Inr found, w1)"
proof (induction topdirs arbitrary: acc w)
  case Nil
  then show ?case by simp
next
  case (Cons topdir topdirs)
  let ?w1 = "emit (LogInfo (''Seaching through: '' @ topdir)) w"
  from Cons.prems obtain found where
    "scan_walk env (fs ?w1) (os_walk env (fs ?w1) topdir prune_mock) acc = Inr found"
    using scan_walk_returns by blast
  then show ?case
    using Cons.IH [OF Cons.prems, of found ?w1] by (simp add: Let_def)
qed

lemma not_tagged_Nil: "\<not> tagged []"
  by (simp add: tagged_def splitext_def rfind_def)

lemma tagged_nonempty: "tagged l \<Longrightarrow> l \<noteq> []"
  using not_tagged_Nil by auto

lemma in_merge_entries:
  "(name, orig, l) \<in> set (merge_entries env f l_names) \<longleftrightarrow>
     l \<in> set l_names \<and> tagged l \<and> owner env f l = Some name \<and> name \<noteq> []
     \<and> orig = fst (splitext l)"
  by (auto simp: merge_entries_def split: option.splits if_splits)

lemma in_delete_entries:
  "l \<in> set (delete_entries env f l_names) \<longleftrightarrow> l \<in> set l_names \<and> tagged l \<and> unowned env f l"
  by (auto simp: delete_entries_def dest: tagged_nonempty)

lemma owner_unowned:
  "rpm_installed env \<Longrightarrow> unowned env f l \<longleftrightarrow> owner env f l = None"
  by (auto simp: unowned_def owner_def rpm_installed_def split: query.splits)

lemma owner_nonempty:
  "names_nonempty env \<Longrightarrow> owner env f l = Some name \<Longrightarrow> name \<noteq> []"
  by (auto simp: owner_def names_nonempty_def split: query.splits if_splits)

section \<open>The classification is a partition\<close>

text \<open>
  C8. Let \<^verbatim>\<open>rpm\<close> be installed and let it print a non-empty name for a file it finds an owner
  of. Then the scan completes, and of every path that the walk visits and whose extension
  is \<^verbatim>\<open>.rpmnew\<close> or \<^verbatim>\<open>.rpmsave\<close> exactly one of the following holds: it is in
  \<^verbatim>\<open>files_delete\<close>, or it is the file of an entry of \<^verbatim>\<open>files_merge\<close>. It is in \<^verbatim>\<open>files_delete\<close>
  exactly when the lookup on the path without the extension fails, and it is in
  \<^verbatim>\<open>files_merge\<close> with a package name exactly when the lookup succeeds with that name.
\<close>

theorem classification_is_partition:
  assumes "rpm_installed env" and "names_nonempty env"
  shows "\<exists>files_merge files_delete w1.
           scan env w = (Inr (files_merge, files_delete), w1)
           \<and> (\<forall>l \<in> set (walk_names env (fs w)). tagged l \<longrightarrow>
                 (l \<in> set files_delete) \<noteq> (l \<in> (snd \<circ> snd) ` set files_merge)
                 \<and> (l \<in> set files_delete \<longleftrightarrow> unowned env (fs w) l)
                 \<and> (\<forall>name. (name, fst (splitext l), l) \<in> set files_merge
                            \<longleftrightarrow> owner env (fs w) l = Some name))"
proof -
  from assms(1) obtain found w1 where "scan env w = (Inr found, w1)"
    unfolding scan_def using scan_topdirs_returns by blast
  then obtain files_merge files_delete where
    scan: "scan env w = (Inr (files_merge, files_delete), w1)"
    by (cases found) auto
  note fm = scan_collects(2) [OF scan] and fd = scan_collects(3) [OF scan]
  have "(l \<in> set files_delete) \<noteq> (l \<in> (snd \<circ> snd) ` set files_merge)
        \<and> (l \<in> set files_delete \<longleftrightarrow> unowned env (fs w) l)
        \<and> (\<forall>name. (name, fst (splitext l), l) \<in> set files_merge
                   \<longleftrightarrow> owner env (fs w) l = Some name)"
    if visited: "l \<in> set (walk_names env (fs w))" and tag: "tagged l" for l
  proof -
    from visited tag have del: "l \<in> set files_delete \<longleftrightarrow> unowned env (fs w) l"
      by (simp add: fd in_delete_entries)
    have mer: "(name, fst (splitext l), l) \<in> set files_merge
        \<longleftrightarrow> owner env (fs w) l = Some name" for name
    proof -
      from visited tag have "(name, fst (splitext l), l) \<in> set files_merge
          \<longleftrightarrow> owner env (fs w) l = Some name \<and> name \<noteq> []"
        by (simp add: fm in_merge_entries)
      with owner_nonempty [OF assms(2), of "fs w" l name] show ?thesis
        by blast
    qed
    have img: "l \<in> (snd \<circ> snd) ` set files_merge \<longleftrightarrow> (\<exists>name. owner env (fs w) l = Some name)"
    proof
      assume "l \<in> (snd \<circ> snd) ` set files_merge"
      then obtain name orig where entry: "(name, orig, l) \<in> set files_merge"
        by auto
      then have "orig = fst (splitext l)"
        by (simp add: fm in_merge_entries)
      with entry mer show "\<exists>name. owner env (fs w) l = Some name"
        by blast
    next
      assume "\<exists>name. owner env (fs w) l = Some name"
      then obtain name where "(name, fst (splitext l), l) \<in> set files_merge"
        using mer by blast
      then show "l \<in> (snd \<circ> snd) ` set files_merge"
        by force
    qed
    from del img owner_unowned [OF assms(1), of "fs w" l]
    have "(l \<in> set files_delete) \<noteq> (l \<in> (snd \<circ> snd) ` set files_merge)"
      by auto
    with del mer show ?thesis
      by blast
  qed
  with scan show ?thesis by blast
qed

theorem classification_is_partition_witness:
  "rpm_installed orphans \<and> names_nonempty orphans
   \<and> walk_names orphans (fs littered) =
       [''/etc/bar.conf'', ''/etc/bar.conf.rpmsave'',
        ''/usr/share/baz.conf.rpmnew'', ''/usr/share/qux.conf.rpmorig'']
   \<and> tagged ''/usr/share/baz.conf.rpmnew''
   \<and> unowned orphans (fs littered) ''/usr/share/baz.conf.rpmnew''
   \<and> tagged ''/etc/bar.conf.rpmsave''
   \<and> owner orphans (fs littered) ''/etc/bar.conf.rpmsave'' = Some ''bar-pkg''
   \<and> (\<exists>files_merge files_delete w1.
         scan orphans littered = (Inr (files_merge, files_delete), w1)
         \<and> ''/usr/share/baz.conf.rpmnew'' \<in> set files_delete
         \<and> ''/usr/share/baz.conf.rpmnew'' \<notin> (snd \<circ> snd) ` set files_merge
         \<and> (''bar-pkg'', ''/etc/bar.conf'', ''/etc/bar.conf.rpmsave'') \<in> set files_merge
         \<and> ''/etc/bar.conf.rpmsave'' \<notin> set files_delete)"
proof -
  have installed: "rpm_installed orphans"
    by (simp add: rpm_installed_def orphans_def)
  have named: "names_nonempty orphans"
    by (auto simp: names_nonempty_def orphans_def split: if_splits)
  have names: "walk_names orphans (fs littered) =
       [''/etc/bar.conf'', ''/etc/bar.conf.rpmsave'',
        ''/usr/share/baz.conf.rpmnew'', ''/usr/share/qux.conf.rpmorig'']"
    by (simp add: walk_names_def orphans_def join_def)
  have baz: "tagged ''/usr/share/baz.conf.rpmnew''"
    "unowned orphans (fs littered) ''/usr/share/baz.conf.rpmnew''"
    by (simp_all add: tagged_def unowned_def splitext_examples orphans_def)
  have bar: "tagged ''/etc/bar.conf.rpmsave''"
    "owner orphans (fs littered) ''/etc/bar.conf.rpmsave'' = Some ''bar-pkg''"
    "\<not> unowned orphans (fs littered) ''/etc/bar.conf.rpmsave''"
    "fst (splitext ''/etc/bar.conf.rpmsave'') = ''/etc/bar.conf''"
    by (simp_all add: tagged_def owner_def unowned_def splitext_examples orphans_def)
  from classification_is_partition [OF installed named, of littered]
  obtain files_merge files_delete w1 where
    scan: "scan orphans littered = (Inr (files_merge, files_delete), w1)"
    and part: "\<forall>l \<in> set (walk_names orphans (fs littered)). tagged l \<longrightarrow>
                 (l \<in> set files_delete) \<noteq> (l \<in> (snd \<circ> snd) ` set files_merge)
                 \<and> (l \<in> set files_delete \<longleftrightarrow> unowned orphans (fs littered) l)
                 \<and> (\<forall>name. (name, fst (splitext l), l) \<in> set files_merge
                            \<longleftrightarrow> owner orphans (fs littered) l = Some name)"
    by blast
  have "''/usr/share/baz.conf.rpmnew'' \<in> set (walk_names orphans (fs littered))"
    by (simp add: names)
  with part baz(1) have
    "(''/usr/share/baz.conf.rpmnew'' \<in> set files_delete)
       \<noteq> (''/usr/share/baz.conf.rpmnew'' \<in> (snd \<circ> snd) ` set files_merge)
     \<and> (''/usr/share/baz.conf.rpmnew'' \<in> set files_delete
          \<longleftrightarrow> unowned orphans (fs littered) ''/usr/share/baz.conf.rpmnew'')"
    by blast
  with baz(2) have
    "''/usr/share/baz.conf.rpmnew'' \<in> set files_delete
     \<and> ''/usr/share/baz.conf.rpmnew'' \<notin> (snd \<circ> snd) ` set files_merge"
    by blast
  moreover have "''/etc/bar.conf.rpmsave'' \<in> set (walk_names orphans (fs littered))"
    by (simp add: names)
  with part bar(1) have
    "(''/etc/bar.conf.rpmsave'' \<in> set files_delete
          \<longleftrightarrow> unowned orphans (fs littered) ''/etc/bar.conf.rpmsave'')
     \<and> ((''bar-pkg'', fst (splitext ''/etc/bar.conf.rpmsave''), ''/etc/bar.conf.rpmsave'')
            \<in> set files_merge
          \<longleftrightarrow> owner orphans (fs littered) ''/etc/bar.conf.rpmsave'' = Some ''bar-pkg'')"
    by blast
  with bar have
    "(''bar-pkg'', ''/etc/bar.conf'', ''/etc/bar.conf.rpmsave'') \<in> set files_merge
     \<and> ''/etc/bar.conf.rpmsave'' \<notin> set files_delete"
    by simp
  ultimately show ?thesis
    using installed named names baz bar(1,2) scan by blast
qed

section \<open>Files whose name ends in .rpmorig\<close>

lemma splitext_rpmorig: "snd (splitext (base @ ''.rpmorig'')) \<in> {[], ''.rpmorig''}"
  by (simp add: splitext_def rfind_def Let_def)

lemma rpmorig_not_tagged: "\<not> tagged (base @ ''.rpmorig'')"
  using splitext_rpmorig [of base] by (auto simp: tagged_def)

lemma fs_foldl_print: "fs (foldl (\<lambda>w x. print (line x) w) w xs) = fs w"
  by (induction xs arbitrary: w) simp_all

lemma fs_report_merge [simp]: "fs (report_merge files_merge w) = fs w"
  using fs_foldl_print [of "\<lambda>(package_merge, orig, rpmnew_rpmsave).
      ljust 20 package_merge @ '': '' @ rpmnew_rpmsave" _ files_merge]
  by (simp add: report_merge_def case_prod_unfold)

lemma ask_delete_fs: "ask_delete inp w = (r, inp1, w1) \<Longrightarrow> fs w1 = fs w"
proof (induction inp w rule: ask_delete.induct)
  case (1 inp w)
  from "1.prems" show ?case
    by (subst (asm) ask_delete.simps)
       (auto simp: flush_input_def split: list.splits if_splits dest: "1.IH" [rotated -1])
qed

lemma remove_files_frame:
  "remove_files cfg paths w = (r, w1) \<Longrightarrow> p \<notin> set paths \<Longrightarrow> fs w1 p = fs w p"
proof (induction paths arbitrary: w)
  case Nil
  then show ?case by simp
next
  case (Cons q paths)
  show ?case
  proof (cases "remove cfg q w")
    case (Pair r0 w0)
    with Cons.prems(2) have step: "fs w0 p = fs w p"
      by (auto simp: remove_def os_unlink_def split: if_splits)
    show ?thesis
    proof (cases r0)
      case (Inl e)
      with Pair Cons.prems(1) step show ?thesis by simp
    next
      case (Inr u)
      with Pair Cons.prems have "fs w1 p = fs w0 p"
        using Cons.IH [of w0] by simp
      with step show ?thesis by simp
    qed
  qed
qed

lemma remove_files_debug: "debug cfg \<Longrightarrow> fs (snd (remove_files cfg paths w)) = fs w"
  by (induction paths arbitrary: w) (simp_all add: remove_debug)

lemma remove_files_keeps_absent:
  "remove_files cfg paths w = (r, w1) \<Longrightarrow> fs w p = None \<Longrightarrow> fs w1 p = None"
proof (induction paths arbitrary: w)
  case Nil
  then show ?case by simp
next
  case (Cons q paths)
  show ?case
  proof (cases "remove cfg q w")
    case (Pair r0 w0)
    with Cons.prems(2) have step: "fs w0 p = None"
      by (auto simp: remove_def os_unlink_def split: if_splits)
    with Pair Cons.prems(1) Cons.IH [of w0] show ?thesis
      by (cases r0) auto
  qed
qed

lemma remove_files_all:
  "\<not> debug cfg \<Longrightarrow> remove_files cfg paths w = (Inr u, w1) \<Longrightarrow> \<forall>p \<in> set paths. fs w1 p = None"
proof (induction paths arbitrary: w)
  case Nil
  then show ?case by simp
next
  case (Cons q paths)
  from Cons.prems(2) obtain u0 w0 where
    first: "remove cfg q w = (Inr u0, w0)" and rest: "remove_files cfg paths w0 = (Inr u, w1)"
    by (auto split: prod.splits sum.splits)
  from remove_absent [OF Cons.prems(1) first] remove_files_keeps_absent [OF rest]
  have "fs w1 q = None" by simp
  with Cons.IH [OF Cons.prems(1) rest] show ?case by simp
qed

text \<open>What \<^verbatim>\<open>_clean_orphan\<close> does once the scan has returned its two lists.\<close>

lemma clean_orphan_after_scan:
  assumes "scan env w = (Inr (files_merge, files_delete), w1)"
  shows "clean_orphan env cfg inp w =
     (let w2 = report_merge files_merge w1
      in if files_delete \<noteq> [] then
           (let w3 = foldl (\<lambda>w4 file_delete. print file_delete w4)
                       (print ''Orphaned .rpmnew and .rpmsave files:'' w2) files_delete
            in (case ask_delete inp w3 of
                  (Inl e, inp1, w4) \<Rightarrow> (Inl e, inp1, w4)
                | (Inr answer, inp1, w4) \<Rightarrow>
                    if answer \<in> set [''Y'', []]
                    then (case remove_files cfg files_delete w4 of (r, w5) \<Rightarrow> (r, inp1, w5))
                    else (Inr (), inp1, w4)))
         else (Inr (), inp, print ''No orphaned .rpmnew and .rpmsave files found.'' w2))"
  using assms by (simp add: clean_orphan_def)

lemma clean_orphan_frame:
  assumes scan: "scan env w = (Inr (files_merge, files_delete), w1)"
    and run: "clean_orphan env cfg inp w = (r, inp1, w2)"
    and other: "p \<notin> set files_delete"
  shows "fs w2 p = fs w p"
proof (cases "files_delete = []")
  case True
  with run scan_fs [OF scan] show ?thesis
    by (auto simp: clean_orphan_after_scan [OF scan] Let_def)
next
  case False
  let ?w3 = "foldl (\<lambda>w4 file_delete. print file_delete w4)
               (print ''Orphaned .rpmnew and .rpmsave files:'' (report_merge files_merge w1))
               files_delete"
  have w3: "fs ?w3 = fs w"
    using scan_fs [OF scan] fs_foldl_print [of "\<lambda>x. x"] by simp
  obtain a inp2 w4 where ask: "ask_delete inp ?w3 = (a, inp2, w4)"
    by (cases "ask_delete inp ?w3") auto
  from ask_delete_fs [OF ask] w3 have w4: "fs w4 = fs w" by simp
  show ?thesis
  proof (cases "\<exists>answer. a = Inr answer \<and> answer \<in> set [''Y'', []]")
    case True
    with run False ask obtain r5 w5 where
      "remove_files cfg files_delete w4 = (r5, w5)" and "w2 = w5"
      by (auto simp: clean_orphan_after_scan [OF scan] Let_def split: prod.splits)
    with remove_files_frame [of cfg files_delete w4 r5 w5 p] other w4 show ?thesis
      by simp
  next
    case no: False
    with run False ask have "w2 = w4"
      by (cases a) (auto simp: clean_orphan_after_scan [OF scan] Let_def)
    with w4 show ?thesis by simp
  qed
qed

lemma clean_orphan_scan_failed:
  "scan env w = (Inl e, w1) \<Longrightarrow> clean_orphan env cfg inp w = (Inl e, inp, w1)"
  by (simp add: clean_orphan_def)

text \<open>
  C10. A path that ends in \<^verbatim>\<open>.rpmorig\<close> does not pass the test of the scan, which lets through
  the extensions \<^verbatim>\<open>.rpmnew\<close> and \<^verbatim>\<open>.rpmsave\<close> only: every path in \<^verbatim>\<open>files_delete\<close> and every file
  of an entry of \<^verbatim>\<open>files_merge\<close> (the two lists that are reported) passes the test, so the
  path is in neither, and \<^verbatim>\<open>_clean_orphan\<close> leaves whatever is at the path as it was. The
  package walker, for its part, hands \<^verbatim>\<open>conf_file + ".rpmorig"\<close> to \<^verbatim>\<open>_handle_rpmsave\<close>.
\<close>

theorem rpmorig_not_scanned:
  "\<not> tagged (base @ ''.rpmorig'')
   \<and> (scan env w = (Inr (files_merge, files_delete), w1) \<longrightarrow>
        (\<forall>l \<in> set files_delete. tagged l)
        \<and> (\<forall>entry \<in> set files_merge. tagged (snd (snd entry)))
        \<and> base @ ''.rpmorig'' \<notin> set files_delete
        \<and> base @ ''.rpmorig'' \<notin> (snd \<circ> snd) ` set files_merge)
   \<and> (clean_orphan env cfg inp w = (r, inp1, w2) \<longrightarrow>
        fs w2 (base @ ''.rpmorig'') = fs w (base @ ''.rpmorig''))
   \<and> (\<not> diff cfg \<and> \<not> os_access (fs w) (conf_file @ ''.rpmnew'')
        \<and> \<not> os_access (fs w) (conf_file @ ''.rpmsave'')
        \<and> os_access (fs w) (conf_file @ ''.rpmorig'') \<longrightarrow>
        handle_conf_file env cfg conf_file inp w =
          handle_rpmsave env cfg conf_file (conf_file @ ''.rpmorig'') inp w)"
proof (intro conjI impI)
  show "\<not> tagged (base @ ''.rpmorig'')"
    by (rule rpmorig_not_tagged)
next
  assume scan: "scan env w = (Inr (files_merge, files_delete), w1)"
  show del: "\<forall>l \<in> set files_delete. tagged l"
    by (simp add: scan_collects(3) [OF scan] in_delete_entries)
  show mer: "\<forall>entry \<in> set files_merge. tagged (snd (snd entry))"
    by (auto simp: scan_collects(2) [OF scan] in_merge_entries)
  from del show "base @ ''.rpmorig'' \<notin> set files_delete"
    using rpmorig_not_tagged [of base] by blast
  from mer show "base @ ''.rpmorig'' \<notin> (snd \<circ> snd) ` set files_merge"
    using rpmorig_not_tagged [of base] by force
next
  assume run: "clean_orphan env cfg inp w = (r, inp1, w2)"
  show "fs w2 (base @ ''.rpmorig'') = fs w (base @ ''.rpmorig'')"
  proof (cases "scan env w")
    case (Pair found w1)
    show ?thesis
    proof (cases found)
      case (Inl e)
      with Pair run scan_fs [of env w found w1] show ?thesis
        by (simp add: clean_orphan_scan_failed)
    next
      case (Inr lists)
      then obtain files_merge files_delete where
        scan: "scan env w = (Inr (files_merge, files_delete), w1)"
        using Pair by (cases lists) auto
      have "\<forall>l \<in> set files_delete. tagged l"
        by (simp add: scan_collects(3) [OF scan] in_delete_entries)
      then have "base @ ''.rpmorig'' \<notin> set files_delete"
        using rpmorig_not_tagged [of base] by blast
      with clean_orphan_frame [OF scan run] show ?thesis by simp
    qed
  qed
next
  assume "\<not> diff cfg \<and> \<not> os_access (fs w) (conf_file @ ''.rpmnew'')
        \<and> \<not> os_access (fs w) (conf_file @ ''.rpmsave'')
        \<and> os_access (fs w) (conf_file @ ''.rpmorig'')"
  then show "handle_conf_file env cfg conf_file inp w =
          handle_rpmsave env cfg conf_file (conf_file @ ''.rpmorig'') inp w"
    by (simp add: handle_conf_file_def)
qed

lemma ask_delete_Nil:
  "ask_delete [] w = (Inl EOFError, [], emit (Ask ''Delete these files (Y/n): '') w)"
  by (subst ask_delete.simps) (simp add: flush_input_def)

lemma ask_delete_Cons:
  "ask_delete (l # ls) w =
     (if upper l \<notin> set [''Y'', ''N'', []]
      then ask_delete ls (emit (Ask ''Delete these files (Y/n): '') w)
      else (Inr (upper l), ls, emit (Ask ''Delete these files (Y/n): '') w))"
  by (subst ask_delete.simps) (simp add: flush_input_def)

lemma clean_littered:
  "fst (clean_orphan orphans plain [''y''] littered) = Inr ()"
  "fs (snd (snd (clean_orphan orphans plain [''y''] littered)))
     = (fs littered)(''/usr/share/baz.conf.rpmnew'' := None)"
  unfolding clean_orphan_after_scan [OF scan_littered]
  by (simp_all add: Let_def ask_delete_Cons upper_char_def remove_def os_unlink_def
      report_merge_def plain_def littered_def)

theorem rpmorig_not_scanned_witness:
  "\<not> tagged ''/usr/share/qux.conf.rpmorig''
   \<and> ''/usr/share/qux.conf.rpmorig'' \<in> set (walk_names orphans (fs littered))
   \<and> scan orphans littered =
       (Inr ([(''bar-pkg'', ''/etc/bar.conf'', ''/etc/bar.conf.rpmsave'')],
             [''/usr/share/baz.conf.rpmnew'']),
        emit (LogInfo ''Seaching through: /usr'')
          (emit (LogInfo ''Seaching through: /var'')
             (emit (LogInfo ''Seaching through: /etc'') littered)))
   \<and> fst (clean_orphan orphans plain [''y''] littered) = Inr ()
   \<and> fs (snd (snd (clean_orphan orphans plain [''y''] littered))) ''/usr/share/baz.conf.rpmnew''
       = None
   \<and> fs (snd (snd (clean_orphan orphans plain [''y''] littered))) ''/usr/share/qux.conf.rpmorig''
       = Some (File ''q=1'' 4)
   \<and> os_access (fs foo_orig) ''/etc/foo.conf.rpmorig''
   \<and> handle_conf_file no_tools plain ''/etc/foo.conf'' [''s''] foo_orig =
       handle_rpmsave no_tools plain ''/etc/foo.conf'' ''/etc/foo.conf.rpmorig'' [''s''] foo_orig"
proof -
  let ?run = "clean_orphan orphans plain [''y''] littered"
  have names: "''/usr/share/qux.conf.rpmorig'' \<in> set (walk_names orphans (fs littered))"
    by (simp add: walk_names_def orphans_def join_def)
  have only_orig: "\<not> diff plain \<and> \<not> os_access (fs foo_orig) (''/etc/foo.conf'' @ ''.rpmnew'')
        \<and> \<not> os_access (fs foo_orig) (''/etc/foo.conf'' @ ''.rpmsave'')
        \<and> os_access (fs foo_orig) (''/etc/foo.conf'' @ ''.rpmorig'')"
    by (simp add: plain_def foo_orig_def os_access_def os_stat_def follow_file follow_none)
  have run: "?run = (fst ?run, fst (snd ?run), snd (snd ?run))"
    by simp
  from rpmorig_not_scanned [where base = "''/usr/share/qux.conf''" and env = orphans
      and w = littered and cfg = plain and inp = "[''y'']" and r = "fst ?run"
      and ?inp1.0 = "fst (snd ?run)" and ?w2.0 = "snd (snd ?run)"]
    run
  have "\<not> tagged ''/usr/share/qux.conf.rpmorig''
    \<and> fs (snd (snd ?run)) ''/usr/share/qux.conf.rpmorig''
         = fs littered ''/usr/share/qux.conf.rpmorig''"
    by simp
  moreover from only_orig
    rpmorig_not_scanned [where env = no_tools and w = foo_orig and cfg = plain
      and inp = "[''s'']" and conf_file = "''/etc/foo.conf''"]
  have "handle_conf_file no_tools plain ''/etc/foo.conf'' [''s''] foo_orig =
       handle_rpmsave no_tools plain ''/etc/foo.conf'' ''/etc/foo.conf.rpmorig'' [''s''] foo_orig"
    by simp
  ultimately show ?thesis
    using names scan_littered clean_littered only_orig
    by (simp add: littered_def)
qed

section \<open>The confirmation of the orphan scanner\<close>

text \<open>The answer that ends the loop does not depend on what is on the screen.\<close>

lemma ask_delete_world:
  "fst (ask_delete inp w) = fst (ask_delete inp w')
   \<and> fst (snd (ask_delete inp w)) = fst (snd (ask_delete inp w'))"
proof (induction inp arbitrary: w w')
  case Nil
  show ?case by (simp add: ask_delete_Nil)
next
  case (Cons l ls)
  show ?case
  proof (cases "upper l \<in> set [''Y'', ''N'', []]")
    case True
    then show ?thesis by (simp add: ask_delete_Cons)
  next
    case False
    with Cons.IH [of "emit (Ask ''Delete these files (Y/n): '') w"
        "emit (Ask ''Delete these files (Y/n): '') w'"]
    show ?thesis by (simp add: ask_delete_Cons)
  qed
qed

text \<open>
  C7 (as amended). Let the scan have returned its two lists. When \<^verbatim>\<open>files_delete\<close> is not
  empty, the one question "Delete these files (Y/n): " is asked for the whole list, again
  until the answer is \<^verbatim>\<open>Y\<close>, \<^verbatim>\<open>N\<close> or empty, and an empty answer does what \<^verbatim>\<open>Y\<close> does. The
  filesystem after \<^verbatim>\<open>_clean_orphan\<close> differs from the one before only if the list was not
  empty, the mode is not dry-run and the answer was \<^verbatim>\<open>Y\<close> or empty. Outside dry-run mode,
  after such an answer and a normal return every path of the list is absent. After the
  answer \<^verbatim>\<open>N\<close> the procedure returns with the filesystem as it was. In dry-run mode the
  filesystem is as it was whatever the answer.
\<close>

theorem orphans_deleted_only_when_confirmed:
  assumes scan: "scan env w = (Inr (files_merge, files_delete), w1)"
    and run: "clean_orphan env cfg inp w = (r, inp1, w2)"
  shows "(files_delete \<noteq> [] \<longrightarrow>
            clean_orphan env cfg ([] # rest) w = clean_orphan env cfg (''Y'' # rest) w)
       \<and> (fs w2 \<noteq> fs w \<longrightarrow>
            files_delete \<noteq> [] \<and> \<not> debug cfg
            \<and> (fst (ask_delete inp w) = Inr ''Y'' \<or> fst (ask_delete inp w) = Inr []))
       \<and> (files_delete \<noteq> [] \<and> \<not> debug cfg \<and> r = Inr ()
            \<and> (fst (ask_delete inp w) = Inr ''Y'' \<or> fst (ask_delete inp w) = Inr [])
          \<longrightarrow> (\<forall>p \<in> set files_delete. fs w2 p = None))
       \<and> (files_delete \<noteq> [] \<and> fst (ask_delete inp w) = Inr ''N''
          \<longrightarrow> r = Inr () \<and> fs w2 = fs w)
       \<and> (debug cfg \<longrightarrow> fs w2 = fs w)"
proof -
  let ?w3 = "foldl (\<lambda>w4 file_delete. print file_delete w4)
               (print ''Orphaned .rpmnew and .rpmsave files:'' (report_merge files_merge w1))
               files_delete"
  have w3: "fs ?w3 = fs w"
    using scan_fs [OF scan] fs_foldl_print [of "\<lambda>x. x"] by simp
  obtain a inp2 w4 where ask: "ask_delete inp ?w3 = (a, inp2, w4)"
    by (cases "ask_delete inp ?w3") auto
  from ask_delete_fs [OF ask] w3 have w4: "fs w4 = fs w" by simp
  from ask ask_delete_world [of inp ?w3 w] have a: "fst (ask_delete inp w) = a" by simp
  have empty: "files_delete = [] \<Longrightarrow> fs w2 = fs w"
    using run scan_fs [OF scan] by (auto simp: clean_orphan_after_scan [OF scan] Let_def)
  have declined: "w2 = w4 \<and> (a = Inr ''N'' \<longrightarrow> r = Inr ())"
    if "files_delete \<noteq> []" and "a \<noteq> Inr ''Y''" and "a \<noteq> Inr []"
    using run that ask
    by (cases a) (auto simp: clean_orphan_after_scan [OF scan] Let_def)
  have confirmed: "(r, w2) = remove_files cfg files_delete w4"
    if "files_delete \<noteq> []" and "a = Inr ''Y'' \<or> a = Inr []"
    using run that ask
    by (auto simp: clean_orphan_after_scan [OF scan] Let_def split: prod.splits)
  have dry_run: "fs w2 = fs w" if "debug cfg"
  proof (cases "files_delete \<noteq> [] \<and> (a = Inr ''Y'' \<or> a = Inr [])")
    case True
    with confirmed have "w2 = snd (remove_files cfg files_delete w4)"
      by (metis snd_conv)
    with remove_files_debug [OF that, of files_delete w4] w4 show ?thesis by simp
  next
    case False
    with empty declined w4 show ?thesis by auto
  qed
  show ?thesis
  proof (intro conjI impI)
    assume "files_delete \<noteq> []"
    then show "clean_orphan env cfg ([] # rest) w = clean_orphan env cfg (''Y'' # rest) w"
      by (simp add: clean_orphan_after_scan [OF scan] Let_def ask_delete_Cons)
  next
    assume changed: "fs w2 \<noteq> fs w"
    with empty show "files_delete \<noteq> []" by blast
    from changed dry_run show "\<not> debug cfg" by blast
    from changed empty declined w4 a
    show "fst (ask_delete inp w) = Inr ''Y'' \<or> fst (ask_delete inp w) = Inr []"
      by auto
  next
    assume "files_delete \<noteq> [] \<and> \<not> debug cfg \<and> r = Inr ()
            \<and> (fst (ask_delete inp w) = Inr ''Y'' \<or> fst (ask_delete inp w) = Inr [])"
    with a confirmed have "remove_files cfg files_delete w4 = (Inr (), w2)" and "\<not> debug cfg"
      by auto
    then show "\<forall>p \<in> set files_delete. fs w2 p = None"
      using remove_files_all by blast
  next
    assume "files_delete \<noteq> [] \<and> fst (ask_delete inp w) = Inr ''N''"
    with a declined w4 show "r = Inr ()" and "fs w2 = fs w"
      by auto
  next
    assume "debug cfg"
    then show "fs w2 = fs w" by (rule dry_run)
  qed
qed

theorem orphans_deleted_only_when_confirmed_witness:
  "scan orphans littered =
       (Inr ([(''bar-pkg'', ''/etc/bar.conf'', ''/etc/bar.conf.rpmsave'')],
             [''/usr/share/baz.conf.rpmnew'']),
        emit (LogInfo ''Seaching through: /usr'')
          (emit (LogInfo ''Seaching through: /var'')
             (emit (LogInfo ''Seaching through: /etc'') littered)))
   \<and> \<not> debug plain
   \<and> fst (ask_delete [''maybe'', ''y''] littered) = Inr ''Y''
   \<and> fst (clean_orphan orphans plain [''maybe'', ''y''] littered) = Inr ()
   \<and> fs (snd (snd (clean_orphan orphans plain [''maybe'', ''y''] littered)))
        ''/usr/share/baz.conf.rpmnew'' = None
   \<and> fst (ask_delete [''n''] littered) = Inr ''N''
   \<and> fst (clean_orphan orphans plain [''n''] littered) = Inr ()
   \<and> fs (snd (snd (clean_orphan orphans plain [''n''] littered))) = fs littered
   \<and> clean_orphan orphans plain [[]] littered = clean_orphan orphans plain [''Y''] littered"
proof -
  let ?yes = "clean_orphan orphans plain [''maybe'', ''y''] littered"
  let ?no = "clean_orphan orphans plain [''n''] littered"
  have mode: "\<not> debug plain"
    by (simp add: plain_def)
  have answers: "fst (ask_delete [''maybe'', ''y''] littered) = Inr ''Y''"
    "fst (ask_delete [''n''] littered) = Inr ''N''"
    by (simp_all add: ask_delete_Cons upper_char_def)
  have returned: "fst ?yes = Inr ()"
    unfolding clean_orphan_after_scan [OF scan_littered]
    by (simp add: Let_def ask_delete_Cons upper_char_def remove_def os_unlink_def
        report_merge_def plain_def littered_def)
  have yes: "?yes = (fst ?yes, fst (snd ?yes), snd (snd ?yes))"
    and no: "?no = (fst ?no, fst (snd ?no), snd (snd ?no))"
    by simp_all
  from orphans_deleted_only_when_confirmed [OF scan_littered yes] mode answers(1) returned
  have "fs (snd (snd ?yes)) ''/usr/share/baz.conf.rpmnew'' = None"
    by simp
  moreover from orphans_deleted_only_when_confirmed [OF scan_littered no] answers(2)
  have "fst ?no = Inr () \<and> fs (snd (snd ?no)) = fs littered"
    by simp
  moreover from orphans_deleted_only_when_confirmed [OF scan_littered no, of "[]"]
  have "clean_orphan orphans plain [[]] littered = clean_orphan orphans plain [''Y''] littered"
    by simp
  ultimately show ?thesis
    using scan_littered mode answers returned by simp
qed

text \<open>
  The claim as written has every candidate deleted on an affirmative answer. In dry-run
  mode the answer \<^verbatim>\<open>Y\<close> leaves the candidate where it is.
\<close>

theorem confirmed_dry_run_counterexample:
  "snd (projr (fst (scan orphans littered))) = [''/usr/share/baz.conf.rpmnew'']
   \<and> fst (ask_delete [''Y''] littered) = Inr ''Y''
   \<and> fst (clean_orphan orphans dry [''Y''] littered) = Inr ()
   \<and> fs (snd (snd (clean_orphan orphans dry [''Y''] littered))) ''/usr/share/baz.conf.rpmnew''
       = Some (File ''z=1'' 3)"
  unfolding clean_orphan_after_scan [OF scan_littered] scan_littered
  by (simp add: Let_def ask_delete_Cons remove_def report_merge_def dry_def plain_def
      littered_def)

section \<open>What the engine itself changes\<close>

lemma tool_steps_trans:
  "tool_steps env a b \<Longrightarrow> tool_steps env b c \<Longrightarrow> tool_steps env a c"
  by (induction rule: tool_steps.induct) (auto intro: tool_steps.intros)

lemma tool_steps_readonly: "tool_steps env a b \<Longrightarrow> tools_readonly env \<Longrightarrow> a = b"
  by (induction rule: tool_steps.induct) (auto simp: tools_readonly_def)

lemma tool_steps_eq: "a = b \<Longrightarrow> tool_steps env a b"
  by (simp add: tool_steps.same)

lemma tool_once: "run_tool env args f = Exited rc f1 \<Longrightarrow> tool_steps env f f1"
  by (rule tool_steps.tool [OF _ tool_steps.same])

lemma check_call_steps:
  "check_call env args w = (r, w1) \<Longrightarrow> tool_steps env (fs w) (fs w1)"
  by (auto simp: check_call_def split: proc.splits if_splits
      intro: tool_steps.same tool_once)

lemma not_merged_fs: "not_merged r = (r1, w1) \<Longrightarrow> fs w1 = fs (snd r)"
  by (auto simp: not_merged_def split: prod.splits sum.splits if_splits)

lemma remove_fs_debug: "debug cfg \<Longrightarrow> remove cfg p w = (r, w1) \<Longrightarrow> fs w1 = fs w"
  by (auto simp: remove_def)

lemma remove_fs_failed: "remove cfg p w = (Inl e, w1) \<Longrightarrow> fs w1 = fs w"
  by (auto simp: remove_def split: if_splits sum.splits)

lemma remove_keeps_absent: "remove cfg p w = (r, w1) \<Longrightarrow> fs w q = None \<Longrightarrow> fs w1 q = None"
  by (auto simp: remove_def os_unlink_def split: if_splits)

text \<open>
  The part of \<^verbatim>\<open>_merge_conf_files\<close> run for \<^verbatim>\<open>kdiff3\<close>: the tool, then the two removals.
\<close>

lemma kdiff3_steps:
  assumes "(case check_call env args w of
              (Inl e, w1) \<Rightarrow> (Inl e, w1)
            | (Inr u, w1) \<Rightarrow>
                (case remove cfg other_file w1 of
                   (Inl e, w2) \<Rightarrow> (Inl e, w2)
                 | (Inr u, w2) \<Rightarrow> remove cfg orig w2)) = (r, w3)"
  shows "tool_steps env (fs w) (fs w3) \<or> (\<not> debug cfg \<and> fs w3 other_file = None)"
proof (cases "check_call env args w")
  case (Pair r1 w1)
  note call = check_call_steps [OF Pair]
  show ?thesis
  proof (cases r1)
    case (Inl e)
    with assms Pair call show ?thesis by simp
  next
    case (Inr u)
    show ?thesis
    proof (cases "debug cfg")
      case True
      with assms Pair Inr have "fs w3 = fs w1"
        by (auto simp: remove_debug)
      with call show ?thesis by simp
    next
      case False
      show ?thesis
      proof (cases "remove cfg other_file w1")
        case first: (Pair r2 w2)
        show ?thesis
        proof (cases r2)
          case (Inl e)
          with assms Pair Inr first remove_fs_failed [of cfg other_file w1 e w2] call
          show ?thesis by simp
        next
          case inner: (Inr u2)
          with first False have "fs w2 other_file = None"
            by (auto dest: remove_absent)
          moreover from assms Pair Inr first inner have "remove cfg orig w2 = (r, w3)"
            by simp
          ultimately have "fs w3 other_file = None"
            by (rule remove_keeps_absent [rotated])
          with False show ?thesis by simp
        qed
      qed
    qed
  qed
qed

lemma merge_conf_files_steps:
  assumes "merge_conf_files env cfg conf_file other_file w = (r, w1)"
  shows "tool_steps env (fs w) (fs w1) \<or> (\<not> debug cfg \<and> fs w1 other_file = None)"
proof -
  let ?body =
    "if frontend cfg = Some ''vimdiff'' \<or> frontend cfg = Some ''gvimdiff''
        \<or> frontend cfg = Some ''meld'' then
       check_call env
         [''/usr/bin/'' @ format_frontend (frontend cfg), conf_file, other_file] w
     else if frontend cfg = Some ''diffuse'' then
       not_merged (check_call env [''/usr/bin/diffuse'', conf_file, other_file] w)
     else if frontend cfg = Some ''kdiff3'' then
       not_merged
         (case check_call env
                 [''/usr/bin/kdiff3'', conf_file, other_file, ''-o'', conf_file] w of
            (Inl e, w1) \<Rightarrow> (Inl e, w1)
          | (Inr u, w1) \<Rightarrow>
              (case remove cfg other_file w1 of
                 (Inl e, w2) \<Rightarrow> (Inl e, w2)
               | (Inr u, w2) \<Rightarrow> remove cfg (conf_file @ ''.orig'') w2))
     else if (frontend cfg = Some ''env'' \<or> frontend cfg = None)
             \<and> environ_MERGE env \<noteq> None then
       (case environ_MERGE env of
          None \<Rightarrow> (Inr (), w)
        | Some merge_tool \<Rightarrow>
            check_call env [merge_tool, conf_file, other_file]
              (emit (PrintRepr merge_tool) w))
     else
       (Inl (SystemExit 2),
        emit (LogError ''You did not selected any frontend for merge'') w)"
  obtain r0 w0 where body: "?body = (r0, w0)"
    by (cases ?body) auto
  with assms have same: "fs w1 = fs w0"
    unfolding merge_conf_files_def
    by (auto split: sum.splits if_splits)
  have "tool_steps env (fs w) (fs w0) \<or> (\<not> debug cfg \<and> fs w0 other_file = None)"
  proof (cases "frontend cfg = Some ''vimdiff'' \<or> frontend cfg = Some ''gvimdiff''
        \<or> frontend cfg = Some ''meld''")
    case True
    with body show ?thesis
      by (auto dest: check_call_steps)
  next
    case visual: False
    show ?thesis
    proof (cases "frontend cfg = Some ''diffuse''")
      case True
      with visual body obtain r2 w2 where
        call: "check_call env [''/usr/bin/diffuse'', conf_file, other_file] w = (r2, w2)"
        and "not_merged (r2, w2) = (r0, w0)"
        by (cases "check_call env [''/usr/bin/diffuse'', conf_file, other_file] w") auto
      with not_merged_fs [of "(r2, w2)" r0 w0] check_call_steps [OF call] show ?thesis
        by simp
    next
      case diffuse: False
      show ?thesis
      proof (cases "frontend cfg = Some ''kdiff3''")
        case True
        obtain r2 w2 where inner:
          "(case check_call env
                 [''/usr/bin/kdiff3'', conf_file, other_file, ''-o'', conf_file] w of
            (Inl e, w1) \<Rightarrow> (Inl e, w1)
          | (Inr u, w1) \<Rightarrow>
              (case remove cfg other_file w1 of
                 (Inl e, w2) \<Rightarrow> (Inl e, w2)
               | (Inr u, w2) \<Rightarrow> remove cfg (conf_file @ ''.orig'') w2)) = (r2, w2)"
          by (cases "(case check_call env
                 [''/usr/bin/kdiff3'', conf_file, other_file, ''-o'', conf_file] w of
            (Inl e, w1) \<Rightarrow> (Inl e, w1)
          | (Inr u, w1) \<Rightarrow>
              (case remove cfg other_file w1 of
                 (Inl e, w2) \<Rightarrow> (Inl e, w2)
               | (Inr u, w2) \<Rightarrow> remove cfg (conf_file @ ''.orig'') w2))") auto
        with True visual diffuse body have "not_merged (r2, w2) = (r0, w0)"
          by simp
        with not_merged_fs [of "(r2, w2)" r0 w0] kdiff3_steps [OF inner] show ?thesis
          by simp
      next
        case kdiff3: False
        with visual diffuse body show ?thesis
          by (auto split: if_splits option.splits dest: check_call_steps
              intro: tool_steps_eq)
      qed
    qed
  qed
  with same show ?thesis by simp
qed

lemma show_diff_fs: "show_diff file1 file2 w = (r, w1) \<Longrightarrow> fs w1 = fs w"
  by (auto simp: show_diff_def split: sum.splits)

lemma show_cond_diff_fs: "show_cond_diff file_ex file1 file2 w = (r, w1) \<Longrightarrow> fs w1 = fs w"
  by (auto simp: show_cond_diff_def split: if_splits dest: show_diff_fs)

lemma ls_conf_file_fs: "ls_conf_file cfg conf_file other_file w = (r, w1) \<Longrightarrow> fs w1 = fs w"
  by (auto simp: ls_conf_file_def Let_def split: if_splits)

lemma ls_conf_file_present:
  "ls_conf_file cfg conf_file other_file w = (Inr u, w1)
   \<Longrightarrow> fs w conf_file \<noteq> None \<and> fs w other_file \<noteq> None"
  by (auto simp: ls_conf_file_def Let_def lexists_def split: if_splits)

lemma flush_input_fs: "flush_input question inp w = (r, inp1, w1) \<Longrightarrow> fs w1 = fs w"
  by (auto simp: flush_input_def split: list.splits)

text \<open>One pass of the loop, from the answer on.\<close>

lemma choice_steps:
  assumes "choice env cfg dflt diff1 diff2 conf_file other_file (r0, inp, w) = (r, inp1, w1)"
  shows "tool_steps env (fs w) (fs w1)
       \<or> (\<not> debug cfg \<and> fs w1 other_file = None \<and> (\<forall>option. r = Inr option \<longrightarrow> option = ''M''))"
  using assms
  by (auto simp: choice_def Let_def split: sum.splits if_splits prod.splits
      dest!: merge_conf_files_steps show_diff_fs intro: tool_steps_eq)

lemma choice_terminal_fs:
  assumes "choice env cfg dflt diff1 diff2 conf_file other_file (r0, inp, w)
             = (Inr option, inp1, w1)"
    and "option \<in> set [''Y'', ''I'', ''N'', ''O'', ''S'']"
  shows "fs w1 = fs w"
  using assms
  by (auto simp: choice_def Let_def split: sum.splits if_splits prod.splits)

lemma choice_loop_needs_variant:
  "fs w other_file = None
   \<Longrightarrow> \<exists>e. fst (choice_loop env cfg prompt dflt diff1 diff2 conf_file other_file inp w) = Inl e"
  by (subst choice_loop.simps) (simp add: ls_conf_file_def lexists_def)

lemma choice_loop_steps:
  "choice_loop env cfg prompt dflt diff1 diff2 conf_file other_file inp w = (r, inp1, w1)
   \<Longrightarrow> debug cfg \<or> (\<exists>option. r = Inr option)
   \<Longrightarrow> tool_steps env (fs w) (fs w1)"
proof (induction env cfg prompt dflt diff1 diff2 conf_file other_file inp w
    rule: choice_loop.induct)
  case (1 env cfg prompt dflt diff1 diff2 conf_file other_file inp w)
  show ?case
  proof (cases "ls_conf_file cfg conf_file other_file w")
    case (Pair r0 w0)
    note w0 = ls_conf_file_fs [OF Pair]
    show ?thesis
    proof (cases r0)
      case (Inl e)
      with "1.prems"(1) Pair w0 show ?thesis
        by (subst (asm) choice_loop.simps) (auto intro: tool_steps_eq)
    next
      case (Inr u)
      obtain a inp0 wa where ask:
        "flush_input ''Your choice: '' inp (print prompt w0) = (a, inp0, wa)"
        by (cases "flush_input ''Your choice: '' inp (print prompt w0)") auto
      from flush_input_fs [OF ask] w0 have wa: "fs wa = fs w"
        by simp
      obtain r2 inp2 w2 where pass:
        "choice env cfg dflt diff1 diff2 conf_file other_file (a, inp0, wa) = (r2, inp2, w2)"
        by (cases "choice env cfg dflt diff1 diff2 conf_file other_file (a, inp0, wa)") auto
      note step = choice_steps [OF pass]
      show ?thesis
      proof (cases r2)
        case failed: (Inl e)
        with "1.prems"(1) Pair Inr ask pass have "r = Inl e" and "w1 = w2"
          by (subst (asm) choice_loop.simps, simp)+
        with "1.prems"(2) step wa show ?thesis
          by auto
      next
        case answered: (Inr option)
        show ?thesis
        proof (cases "option \<in> set [''Y'', ''I'', ''N'', ''O'', ''S'']")
          case True
          with "1.prems"(1) Pair Inr ask pass answered have "w1 = w2"
            by (subst (asm) choice_loop.simps) (simp del: set_simps)
          with choice_terminal_fs [OF pass [unfolded answered] True] wa show ?thesis
            by (simp add: tool_steps.same)
        next
          case False
          with "1.prems"(1) Pair Inr ask pass answered have again:
            "choice_loop env cfg prompt dflt diff1 diff2 conf_file other_file inp2 w2
               = (r, inp1, w1)"
            by (subst (asm) choice_loop.simps) (simp del: set_simps)
          have third: "(r2, inp2, w2) =
              choice env cfg dflt diff1 diff2 conf_file other_file
                (flush_input ''Your choice: '' inp (print prompt w0))"
            using ask pass by simp
          have ih: "tool_steps env (fs w2) (fs w1)"
            by (rule "1.IH" [OF Pair [symmetric] Inr third answered refl False again
                  "1.prems"(2)])
          from step show ?thesis
          proof
            assume "tool_steps env (fs wa) (fs w2)"
            with ih wa show ?thesis
              by (auto intro: tool_steps_trans)
          next
            assume "\<not> debug cfg \<and> fs w2 other_file = None
                \<and> (\<forall>option. r2 = Inr option \<longrightarrow> option = ''M'')"
            with choice_loop_needs_variant [of w2 other_file env cfg prompt dflt diff1 diff2
                conf_file inp2] again "1.prems"(2)
            show ?thesis by auto
          qed
        qed
      qed
    qed
  qed
qed

lemma choice_loop_present:
  "choice_loop env cfg prompt dflt diff1 diff2 conf_file other_file inp w
     = (Inr option, inp1, w1)
   \<Longrightarrow> fs w1 conf_file \<noteq> None \<and> fs w1 other_file \<noteq> None"
proof (induction env cfg prompt dflt diff1 diff2 conf_file other_file inp w
    rule: choice_loop.induct)
  case (1 env cfg prompt dflt diff1 diff2 conf_file other_file inp w)
  show ?case
  proof (cases "ls_conf_file cfg conf_file other_file w")
    case (Pair r0 w0)
    note w0 = ls_conf_file_fs [OF Pair]
    show ?thesis
    proof (cases r0)
      case (Inl e)
      with "1.prems"(1) Pair show ?thesis
        by (subst (asm) choice_loop.simps) simp
    next
      case (Inr u)
      note present = ls_conf_file_present [OF Pair [unfolded Inr]]
      obtain a inp0 wa where ask:
        "flush_input ''Your choice: '' inp (print prompt w0) = (a, inp0, wa)"
        by (cases "flush_input ''Your choice: '' inp (print prompt w0)") auto
      from flush_input_fs [OF ask] w0 have wa: "fs wa = fs w"
        by simp
      obtain r2 inp2 w2 where pass:
        "choice env cfg dflt diff1 diff2 conf_file other_file (a, inp0, wa) = (r2, inp2, w2)"
        by (cases "choice env cfg dflt diff1 diff2 conf_file other_file (a, inp0, wa)") auto
      show ?thesis
      proof (cases r2)
        case failed: (Inl e)
        with "1.prems"(1) Pair Inr ask pass show ?thesis
          by (subst (asm) choice_loop.simps) simp
      next
        case answered: (Inr opt)
        show ?thesis
        proof (cases "opt \<in> set [''Y'', ''I'', ''N'', ''O'', ''S'']")
          case True
          with "1.prems"(1) Pair Inr ask pass answered have "w1 = w2"
            by (subst (asm) choice_loop.simps) (simp del: set_simps)
          with choice_terminal_fs [OF pass [unfolded answered] True] wa present show ?thesis
            by simp
        next
          case False
          with "1.prems"(1) Pair Inr ask pass answered have again:
            "choice_loop env cfg prompt dflt diff1 diff2 conf_file other_file inp2 w2
               = (Inr option, inp1, w1)"
            by (subst (asm) choice_loop.simps) (simp del: set_simps)
          have third: "(r2, inp2, w2) =
              choice env cfg dflt diff1 diff2 conf_file other_file
                (flush_input ''Your choice: '' inp (print prompt w0))"
            using ask pass by simp
          show ?thesis
            by (rule "1.IH" [OF Pair [symmetric] Inr third answered refl False again])
        qed
      qed
    qed
  qed
qed

section \<open>Skipped pairs\<close>

lemma skipped_result:
  assumes "filecmp_cmp (fs w) conf_file other_file = Inr False"
    and "choice_loop env cfg prompt dflt diff1 diff2 conf_file other_file inp w = (Inr ''S'', inp1, w1)"
  shows "tool_steps env (fs w) (fs w1)" and "tools_readonly env \<longrightarrow> fs w1 = fs w"
    and "fs w1 conf_file \<noteq> None" and "fs w1 other_file \<noteq> None"
proof -
  show steps: "tool_steps env (fs w) (fs w1)"
    using choice_loop_steps [OF assms(2)] by simp
  then show "tools_readonly env \<longrightarrow> fs w1 = fs w"
    using tool_steps_readonly by fastforce
  from choice_loop_present [OF assms(2)]
  show "fs w1 conf_file \<noteq> None" and "fs w1 other_file \<noteq> None"
    by simp_all
qed

text \<open>
  C9 (as amended). When the resolution of a pair ends with the option \<^verbatim>\<open>S\<close>, given by the
  administrator or standing for the end of input, the handler returns, both the base file
  and the variant are still there, and the engine has written nothing: the filesystem is
  what the merge tools started for \<^verbatim>\<open>M\<close> during this resolution have made of the one
  before. With tools that write nothing it is the one before.
\<close>

theorem skip_leaves_files:
  "(skipped_rpmnew env cfg conf_file other_file inp w \<longrightarrow>
      (\<exists>inp1 w1. handle_rpmnew env cfg conf_file other_file inp w = (Inr (), inp1, w1)
         \<and> tool_steps env (fs w) (fs w1)
         \<and> (tools_readonly env \<longrightarrow> fs w1 = fs w)
         \<and> fs w1 conf_file \<noteq> None \<and> fs w1 other_file \<noteq> None))
   \<and> (skipped_rpmsave env cfg conf_file other_file inp w \<longrightarrow>
      (\<exists>inp1 w1. handle_rpmsave env cfg conf_file other_file inp w = (Inr (), inp1, w1)
         \<and> tool_steps env (fs w) (fs w1)
         \<and> (tools_readonly env \<longrightarrow> fs w1 = fs w)
         \<and> fs w1 conf_file \<noteq> None \<and> fs w1 other_file \<noteq> None))"
proof (intro conjI impI)
  assume "skipped_rpmnew env cfg conf_file other_file inp w"
  then obtain inp1 w1 where differ: "filecmp_cmp (fs w) conf_file other_file = Inr False"
    and loop: "choice_loop env cfg prompt_rpmnew ''N'' conf_file other_file
                 conf_file other_file inp w = (Inr ''S'', inp1, w1)"
    by (cases "choice_loop env cfg prompt_rpmnew ''N'' conf_file other_file
                 conf_file other_file inp w") (auto simp: skipped_rpmnew_def)
  then have "handle_rpmnew env cfg conf_file other_file inp w = (Inr (), inp1, w1)"
    by (simp add: handle_rpmnew_def)
  with skipped_result [OF differ loop]
  show "\<exists>inp1 w1. handle_rpmnew env cfg conf_file other_file inp w = (Inr (), inp1, w1)
         \<and> tool_steps env (fs w) (fs w1)
         \<and> (tools_readonly env \<longrightarrow> fs w1 = fs w)
         \<and> fs w1 conf_file \<noteq> None \<and> fs w1 other_file \<noteq> None"
    by blast
next
  assume "skipped_rpmsave env cfg conf_file other_file inp w"
  then obtain inp1 w1 where differ: "filecmp_cmp (fs w) conf_file other_file = Inr False"
    and loop: "choice_loop env cfg prompt_rpmsave ''Y'' other_file conf_file
                 conf_file other_file inp w = (Inr ''S'', inp1, w1)"
    by (cases "choice_loop env cfg prompt_rpmsave ''Y'' other_file conf_file
                 conf_file other_file inp w") (auto simp: skipped_rpmsave_def)
  then have "handle_rpmsave env cfg conf_file other_file inp w = (Inr (), inp1, w1)"
    by (simp add: handle_rpmsave_def)
  with skipped_result [OF differ loop]
  show "\<exists>inp1 w1. handle_rpmsave env cfg conf_file other_file inp w = (Inr (), inp1, w1)
         \<and> tool_steps env (fs w) (fs w1)
         \<and> (tools_readonly env \<longrightarrow> fs w1 = fs w)
         \<and> fs w1 conf_file \<noteq> None \<and> fs w1 other_file \<noteq> None"
    by blast
qed

lemma viewer_readonly: "tools_readonly viewer"
  by (simp add: tools_readonly_def viewer_def)

lemma merge_then_skip_new:
  "choice_loop viewer with_meld prompt_rpmnew ''N'' ''/etc/foo.conf'' ''/etc/foo.conf.rpmnew''
      ''/etc/foo.conf'' ''/etc/foo.conf.rpmnew'' [''m'', ''s''] foo_new =
     (Inr ''S'', [],
      prompted prompt_rpmnew with_meld ''/etc/foo.conf'' ''/etc/foo.conf.rpmnew''
        (prompted prompt_rpmnew with_meld ''/etc/foo.conf'' ''/etc/foo.conf.rpmnew'' foo_new))"
  by (simp add: choice_loop_Cons ls_conf_file_def lexists_def flush_input_def choice_def
      upper_char_def merge_conf_files_def check_call_def format_frontend_def
      prompted_def with_meld_def plain_def viewer_def no_tools_def foo_new_def)

theorem skip_leaves_files_witness:
  "skipped_rpmnew viewer with_meld ''/etc/foo.conf'' ''/etc/foo.conf.rpmnew'' [''m'', ''s''] foo_new
   \<and> tools_readonly viewer
   \<and> fst (handle_rpmnew viewer with_meld ''/etc/foo.conf'' ''/etc/foo.conf.rpmnew''
            [''m'', ''s''] foo_new) = Inr ()
   \<and> fs (snd (snd (handle_rpmnew viewer with_meld ''/etc/foo.conf'' ''/etc/foo.conf.rpmnew''
            [''m'', ''s''] foo_new))) = fs foo_new
   \<and> skipped_rpmsave no_tools plain ''/etc/foo.conf'' ''/etc/foo.conf.rpmsave'' [] foo_save
   \<and> fst (handle_rpmsave no_tools plain ''/etc/foo.conf'' ''/etc/foo.conf.rpmsave'' [] foo_save)
       = Inr ()
   \<and> fs (snd (snd (handle_rpmsave no_tools plain ''/etc/foo.conf'' ''/etc/foo.conf.rpmsave''
            [] foo_save))) = fs foo_save"
proof -
  have new: "skipped_rpmnew viewer with_meld ''/etc/foo.conf'' ''/etc/foo.conf.rpmnew''
      [''m'', ''s''] foo_new"
    by (simp add: skipped_rpmnew_def merge_then_skip_new)
       (simp add: filecmp_cmp_def os_stat_def follow_file foo_new_def)
  have save: "skipped_rpmsave no_tools plain ''/etc/foo.conf'' ''/etc/foo.conf.rpmsave'' []
      foo_save"
    by (simp add: skipped_rpmsave_def choice_loop_Nil ls_conf_file_def lexists_def
        filecmp_cmp_def os_stat_def follow_file foo_save_def)
  have none: "tools_readonly no_tools"
    by (simp add: tools_readonly_def no_tools_def)
  from new viewer_readonly
    skip_leaves_files [of viewer with_meld "''/etc/foo.conf''" "''/etc/foo.conf.rpmnew''"
      "[''m'', ''s'']" foo_new]
  have "fst (handle_rpmnew viewer with_meld ''/etc/foo.conf'' ''/etc/foo.conf.rpmnew''
            [''m'', ''s''] foo_new) = Inr ()
   \<and> fs (snd (snd (handle_rpmnew viewer with_meld ''/etc/foo.conf'' ''/etc/foo.conf.rpmnew''
            [''m'', ''s''] foo_new))) = fs foo_new"
    by auto
  moreover from save none
    skip_leaves_files [of no_tools plain "''/etc/foo.conf''" "''/etc/foo.conf.rpmsave''"
      "[]" foo_save]
  have "fst (handle_rpmsave no_tools plain ''/etc/foo.conf'' ''/etc/foo.conf.rpmsave'' [] foo_save)
       = Inr ()
   \<and> fs (snd (snd (handle_rpmsave no_tools plain ''/etc/foo.conf'' ''/etc/foo.conf.rpmsave''
            [] foo_save))) = fs foo_save"
    by auto
  ultimately show ?thesis
    using new save viewer_readonly by simp
qed

text \<open>
  The claim as written has both files byte-unchanged after every skip. After \<^verbatim>\<open>M\<close>, a tool
  that saves the merge into the base file, and then \<^verbatim>\<open>S\<close>, the pair is skipped and the base
  file has other bytes than before.
\<close>

theorem merge_then_skip_counterexample:
  "skipped_rpmnew editor with_meld ''/etc/foo.conf'' ''/etc/foo.conf.rpmnew'' [''m'', ''s''] foo_new
   \<and> fst (handle_rpmnew editor with_meld ''/etc/foo.conf'' ''/etc/foo.conf.rpmnew''
            [''m'', ''s''] foo_new) = Inr ()
   \<and> fs foo_new ''/etc/foo.conf'' = Some (File ''a=1'' 5)
   \<and> fs (snd (snd (handle_rpmnew editor with_meld ''/etc/foo.conf'' ''/etc/foo.conf.rpmnew''
            [''m'', ''s''] foo_new))) ''/etc/foo.conf'' = Some (File ''a=1;b=2'' 9)"
proof -
  have differ: "filecmp_cmp (fs foo_new) ''/etc/foo.conf'' ''/etc/foo.conf.rpmnew'' = Inr False"
    by (simp add: filecmp_cmp_def os_stat_def follow_file foo_new_def)
  have loop: "choice_loop editor with_meld prompt_rpmnew ''N'' ''/etc/foo.conf''
      ''/etc/foo.conf.rpmnew'' ''/etc/foo.conf'' ''/etc/foo.conf.rpmnew'' [''m'', ''s''] foo_new =
     (Inr ''S'', [],
      prompted prompt_rpmnew with_meld ''/etc/foo.conf'' ''/etc/foo.conf.rpmnew''
        ((prompted prompt_rpmnew with_meld ''/etc/foo.conf'' ''/etc/foo.conf.rpmnew'' foo_new)
           \<lparr>fs := (fs foo_new)(''/etc/foo.conf'' \<mapsto> File ''a=1;b=2'' 9)\<rparr>))"
    by (simp add: choice_loop_Cons ls_conf_file_def lexists_def flush_input_def choice_def
        upper_char_def merge_conf_files_def check_call_def format_frontend_def
        prompted_def with_meld_def plain_def editor_def no_tools_def foo_new_def)
  from differ loop show ?thesis
    by (simp add: skipped_rpmnew_def handle_rpmnew_def) (simp add: foo_new_def)
qed

section \<open>Dry-run mode\<close>

lemma overwrite_debug:
  "debug cfg \<Longrightarrow>
   overwrite cfg src dst w = (Inr (), print (''cp --no-dereference '' @ src @ '' '' @ dst) w)"
  by (simp add: overwrite_def)

lemma handle_rpmnew_dry:
  assumes "debug cfg"
    and "handle_rpmnew env cfg conf_file other_file inp w = (r, inp1, w1)"
  shows "tool_steps env (fs w) (fs w1)"
proof (cases "filecmp_cmp (fs w) conf_file other_file")
  case (Inl e)
  with assms(2) show ?thesis
    by (auto simp: handle_rpmnew_def intro: tool_steps_eq)
next
  case (Inr same)
  show ?thesis
  proof (cases same)
    case True
    with Inr assms show ?thesis
      by (auto simp: handle_rpmnew_def remove_debug intro: tool_steps_eq)
  next
    case False
    obtain r2 inp2 w2 where loop:
      "choice_loop env cfg prompt_rpmnew ''N'' conf_file other_file conf_file other_file inp w
         = (r2, inp2, w2)"
      by (cases "choice_loop env cfg prompt_rpmnew ''N'' conf_file other_file
            conf_file other_file inp w") auto
    from choice_loop_steps [OF loop] assms(1) have steps: "tool_steps env (fs w) (fs w2)"
      by simp
    from Inr False loop assms have "fs w1 = fs w2"
      by (cases r2)
         (auto simp: handle_rpmnew_def remove_debug overwrite_debug split: if_splits)
    with steps show ?thesis by simp
  qed
qed

lemma handle_rpmsave_dry:
  assumes "debug cfg"
    and "handle_rpmsave env cfg conf_file other_file inp w = (r, inp1, w1)"
  shows "tool_steps env (fs w) (fs w1)"
proof (cases "filecmp_cmp (fs w) conf_file other_file")
  case (Inl e)
  with assms(2) show ?thesis
    by (auto simp: handle_rpmsave_def intro: tool_steps_eq)
next
  case (Inr same)
  show ?thesis
  proof (cases same)
    case True
    with Inr assms show ?thesis
      by (auto simp: handle_rpmsave_def remove_debug intro: tool_steps_eq)
  next
    case False
    obtain r2 inp2 w2 where loop:
      "choice_loop env cfg prompt_rpmsave ''Y'' other_file conf_file conf_file other_file inp w
         = (r2, inp2, w2)"
      by (cases "choice_loop env cfg prompt_rpmsave ''Y'' other_file conf_file
            conf_file other_file inp w") auto
    from choice_loop_steps [OF loop] assms(1) have steps: "tool_steps env (fs w) (fs w2)"
      by simp
    from Inr False loop assms have "fs w1 = fs w2"
      by (cases r2)
         (auto simp: handle_rpmsave_def remove_debug overwrite_debug split: if_splits)
    with steps show ?thesis by simp
  qed
qed

lemma handle_conf_file_dry:
  assumes "debug cfg"
    and "handle_conf_file env cfg conf_file inp w = (r, inp1, w1)"
  shows "tool_steps env (fs w) (fs w1)"
proof (cases "diff cfg")
  case True
  with assms(2) have "fs w1 = fs w"
    by (auto simp: handle_conf_file_def Let_def split: prod.splits sum.splits
        dest!: show_cond_diff_fs)
  then show ?thesis by (simp add: tool_steps.same)
next
  case False
  let ?new = "if os_access (fs w) (conf_file @ ''.'' @ ''rpmnew'')
              then handle_rpmnew env cfg conf_file (conf_file @ ''.'' @ ''rpmnew'') inp w
              else (Inr (), inp, w)"
  obtain ra inpa wa where new: "?new = (ra, inpa, wa)"
    by (cases ?new) auto
  then have a: "tool_steps env (fs w) (fs wa)"
    using handle_rpmnew_dry [OF assms(1)] by (auto split: if_splits intro: tool_steps.same)
  show ?thesis
  proof (cases ra)
    case (Inl e)
    with False new assms(2) have "w1 = wa"
      by (simp add: handle_conf_file_def)
    with a show ?thesis by simp
  next
    case first: (Inr u)
    let ?save = "if os_access (fs wa) (conf_file @ ''.'' @ ''rpmsave'')
                 then handle_rpmsave env cfg conf_file (conf_file @ ''.'' @ ''rpmsave'') inpa wa
                 else (Inr (), inpa, wa)"
    obtain rb inpb wb where save: "?save = (rb, inpb, wb)"
      by (cases ?save) auto
    then have b: "tool_steps env (fs wa) (fs wb)"
      using handle_rpmsave_dry [OF assms(1)] by (auto split: if_splits intro: tool_steps.same)
    show ?thesis
    proof (cases rb)
      case (Inl e)
      with False new first save assms(2) have "w1 = wb"
        by (simp add: handle_conf_file_def)
      with a b show ?thesis by (auto intro: tool_steps_trans)
    next
      case second: (Inr u2)
      with False new first save assms(2) have
        "(if os_access (fs wb) (conf_file @ ''.'' @ ''rpmorig'')
          then handle_rpmsave env cfg conf_file (conf_file @ ''.'' @ ''rpmorig'') inpb wb
          else (Inr (), inpb, wb)) = (r, inp1, w1)"
        by (simp add: handle_conf_file_def)
      then have "tool_steps env (fs wb) (fs w1)"
        using handle_rpmsave_dry [OF assms(1)] by (auto split: if_splits intro: tool_steps.same)
      with a b show ?thesis by (blast intro: tool_steps_trans)
    qed
  qed
qed

lemma handle_conf_files_dry:
  "debug cfg \<Longrightarrow> handle_conf_files env cfg conf_files inp w = (r, inp1, w1)
   \<Longrightarrow> tool_steps env (fs w) (fs w1)"
proof (induction conf_files arbitrary: inp w)
  case Nil
  then show ?case by (auto intro: tool_steps.same)
next
  case (Cons conf_file conf_files)
  obtain r0 inp0 w0 where first: "handle_conf_file env cfg conf_file inp w = (r0, inp0, w0)"
    by (cases "handle_conf_file env cfg conf_file inp w") auto
  note a = handle_conf_file_dry [OF Cons.prems(1) first]
  show ?case
  proof (cases r0)
    case (Inl e)
    with first Cons.prems(2) a show ?thesis by simp
  next
    case (Inr u)
    with first Cons.prems(2) have "handle_conf_files env cfg conf_files inp0 w0 = (r, inp1, w1)"
      by simp
    from a Cons.IH [OF Cons.prems(1) this] show ?thesis
      by (rule tool_steps_trans)
  qed
qed

lemma handle_headers_dry:
  "debug cfg \<Longrightarrow> handle_headers env cfg pkg inp w = (r, inp1, w1)
   \<Longrightarrow> tool_steps env (fs w) (fs w1)"
proof (induction pkg arbitrary: inp w)
  case Nil
  then show ?case by (auto intro: tool_steps.same)
next
  case (Cons pkg_hdr pkg)
  obtain r0 inp0 w0 where first: "handle_package env cfg pkg_hdr inp w = (r0, inp0, w0)"
    by (cases "handle_package env cfg pkg_hdr inp w") auto
  then have a: "tool_steps env (fs w) (fs w0)"
    using handle_conf_files_dry [OF Cons.prems(1)] by (simp add: handle_package_def)
  show ?case
  proof (cases r0)
    case (Inl e)
    with first Cons.prems(2) a show ?thesis by simp
  next
    case (Inr u)
    with first Cons.prems(2) have "handle_headers env cfg pkg inp0 w0 = (r, inp1, w1)"
      by simp
    from a Cons.IH [OF Cons.prems(1) this] show ?thesis
      by (rule tool_steps_trans)
  qed
qed

lemma handle_packages_dry:
  "debug cfg \<Longrightarrow> handle_packages env cfg pkgs inp w = (r, inp1, w1)
   \<Longrightarrow> tool_steps env (fs w) (fs w1)"
proof (induction pkgs arbitrary: inp w)
  case Nil
  then show ?case by (auto intro: tool_steps.same)
next
  case (Cons pkg pkgs)
  obtain r0 inp0 w0 where first: "handle_headers env cfg pkg inp w = (r0, inp0, w0)"
    by (cases "handle_headers env cfg pkg inp w") auto
  note a = handle_headers_dry [OF Cons.prems(1) first]
  show ?case
  proof (cases r0)
    case (Inl e)
    with first Cons.prems(2) a show ?thesis by simp
  next
    case (Inr u)
    with first Cons.prems(2) have "handle_packages env cfg pkgs inp0 w0 = (r, inp1, w1)"
      by simp
    from a Cons.IH [OF Cons.prems(1) this] show ?thesis
      by (rule tool_steps_trans)
  qed
qed

lemma clean_orphan_dry:
  assumes "debug cfg" and "clean_orphan env cfg inp w = (r, inp1, w2)"
  shows "fs w2 = fs w"
proof (cases "scan env w")
  case (Pair found w1)
  note w1 = scan_fs [OF Pair]
  show ?thesis
  proof (cases found)
    case (Inl e)
    with Pair assms(2) w1 show ?thesis
      by (simp add: clean_orphan_scan_failed)
  next
    case (Inr lists)
    then obtain files_merge files_delete where
      scan: "scan env w = (Inr (files_merge, files_delete), w1)"
      using Pair by (cases lists) auto
    let ?w3 = "foldl (\<lambda>w4 file_delete. print file_delete w4)
                 (print ''Orphaned .rpmnew and .rpmsave files:'' (report_merge files_merge w1))
                 files_delete"
    have w3: "fs ?w3 = fs w"
      using w1 fs_foldl_print [of "\<lambda>x. x"] by simp
    obtain a inp2 w4 where ask: "ask_delete inp ?w3 = (a, inp2, w4)"
      by (cases "ask_delete inp ?w3") auto
    from ask_delete_fs [OF ask] w3 have w4: "fs w4 = fs w" by simp
    from assms(2) ask w1 w4 remove_files_debug [OF assms(1), of files_delete w4]
    show ?thesis
      by (auto simp: clean_orphan_after_scan [OF scan] Let_def
          split: if_splits sum.splits prod.splits)
  qed
qed

lemma run_dry:
  assumes "debug cfg" and "run env cfg inp w = (r, inp1, w1)"
  shows "tool_steps env (fs w) (fs w1)"
proof -
  obtain r0 inp0 w0 where first: "handle_packages env cfg (packages cfg) inp w = (r0, inp0, w0)"
    by (cases "handle_packages env cfg (packages cfg) inp w") auto
  note a = handle_packages_dry [OF assms(1) first]
  from first assms(2) have "fs w1 = fs w0"
    by (cases r0) (auto simp: run_def split: if_splits dest: clean_orphan_dry [OF assms(1)])
  with a show ?thesis by simp
qed

text \<open>
  C6 (as amended). In dry-run mode \<^verbatim>\<open>_remove\<close> and \<^verbatim>\<open>_overwrite\<close> print the command they stand
  for and return with the filesystem as it was, and no other step of the engine writes:
  after \<^verbatim>\<open>run\<close>, however it ends, the filesystem is what the merge tools started for \<^verbatim>\<open>M\<close>
  have made of the one before. With tools that write nothing it is the one before.
\<close>

theorem dry_run_changes_nothing:
  assumes "debug cfg"
  shows "remove cfg conf_file w = (Inr (), print (''rm '' @ conf_file) w)
       \<and> overwrite cfg src dst w =
           (Inr (), print (''cp --no-dereference '' @ src @ '' '' @ dst) w)
       \<and> tool_steps env (fs w) (fs (snd (snd (run env cfg inp w))))
       \<and> (tools_readonly env \<longrightarrow> fs (snd (snd (run env cfg inp w))) = fs w)"
proof -
  have steps: "tool_steps env (fs w) (fs (snd (snd (run env cfg inp w))))"
    using run_dry [OF assms, of env inp w "fst (run env cfg inp w)"
        "fst (snd (run env cfg inp w))" "snd (snd (run env cfg inp w))"]
    by simp
  then have "tools_readonly env \<longrightarrow> fs (snd (snd (run env cfg inp w))) = fs w"
    using tool_steps_readonly by fastforce
  with steps assms show ?thesis
    by (simp add: remove_debug overwrite_debug)
qed

lemma foo_new_differs:
  "filecmp_cmp (fs foo_new) ''/etc/foo.conf'' ''/etc/foo.conf.rpmnew'' = Inr False"
  by (simp add: filecmp_cmp_def os_stat_def follow_file foo_new_def)

lemma foo_new_access:
  "os_access (fs foo_new) ''/etc/foo.conf.rpmnew''"
  "\<not> os_access (fs foo_new) ''/etc/foo.conf.rpmsave''"
  "\<not> os_access (fs foo_new) ''/etc/foo.conf.rpmorig''"
  by (simp_all add: os_access_def os_stat_def follow_file follow_none foo_new_def)

lemma dry_meld_returns:
  "fst (run viewer dry_meld [''m'', ''y''] foo_new) = Inr ()"
proof -
  have loop: "choice_loop viewer dry_meld prompt_rpmnew ''N'' ''/etc/foo.conf''
      ''/etc/foo.conf.rpmnew'' ''/etc/foo.conf'' ''/etc/foo.conf.rpmnew'' [''m'', ''y''] foo_new =
     (Inr ''Y'', [],
      prompted prompt_rpmnew dry_meld ''/etc/foo.conf'' ''/etc/foo.conf.rpmnew''
        (prompted prompt_rpmnew dry_meld ''/etc/foo.conf'' ''/etc/foo.conf.rpmnew'' foo_new))"
    by (simp add: choice_loop_Cons ls_conf_file_def lexists_def flush_input_def choice_def
        upper_char_def merge_conf_files_def check_call_def format_frontend_def
        prompted_def dry_meld_def dry_def plain_def viewer_def no_tools_def foo_new_def)
  have cfg: "debug dry_meld" "\<not> diff dry_meld" "\<not> clean dry_meld"
    "packages dry_meld = [[[(''/etc/foo.conf'', 1)]]]"
    by (simp_all add: dry_meld_def dry_def plain_def)
  have handled: "fst (handle_conf_file viewer dry_meld ''/etc/foo.conf'' [''m'', ''y''] foo_new)
      = Inr ()"
    using foo_new_access
    by (simp add: handle_conf_file_def handle_rpmnew_def foo_new_differs loop
        overwrite_debug [OF cfg(1)] cfg)
  then obtain inp1 w1 where
    "handle_conf_file viewer dry_meld ''/etc/foo.conf'' [''m'', ''y''] foo_new = (Inr (), inp1, w1)"
    by (cases "handle_conf_file viewer dry_meld ''/etc/foo.conf'' [''m'', ''y''] foo_new") auto
  then show ?thesis
    by (simp add: run_def handle_package_def get_list_of_config_def RPMFILE_CONFIG_def cfg)
qed

theorem dry_run_changes_nothing_witness:
  "debug dry_meld \<and> tools_readonly viewer
   \<and> remove dry_meld ''/etc/foo.conf.rpmnew'' foo_new
       = (Inr (), print ''rm /etc/foo.conf.rpmnew'' foo_new)
   \<and> overwrite dry_meld ''/etc/foo.conf.rpmnew'' ''/etc/foo.conf'' foo_new
       = (Inr (), print ''cp --no-dereference /etc/foo.conf.rpmnew /etc/foo.conf'' foo_new)
   \<and> fst (run viewer dry_meld [''m'', ''y''] foo_new) = Inr ()
   \<and> fs (snd (snd (run viewer dry_meld [''m'', ''y''] foo_new))) = fs foo_new"
proof -
  have debug: "debug dry_meld"
    by (simp add: dry_meld_def dry_def)
  from dry_run_changes_nothing [OF debug, of "''/etc/foo.conf.rpmnew''" foo_new
      "''/etc/foo.conf.rpmnew''" "''/etc/foo.conf''" viewer "[''m'', ''y'']"]
    viewer_readonly debug dry_meld_returns
  show ?thesis by simp
qed

text \<open>
  The claim as written has the filesystem after a dry run identical to the one before.
  The dry run starts the merge tool all the same; with \<^verbatim>\<open>kdiff3\<close>, which is told to write
  the merge to the base file (\<^verbatim>\<open>-o conf_file\<close>), the base file has other bytes afterwards.
\<close>

theorem dry_run_merge_counterexample:
  "debug dry_kdiff3
   \<and> fst (run editor dry_kdiff3 [''m'', ''s''] foo_new) = Inr ()
   \<and> fs foo_new ''/etc/foo.conf'' = Some (File ''a=1'' 5)
   \<and> fs (snd (snd (run editor dry_kdiff3 [''m'', ''s''] foo_new))) ''/etc/foo.conf''
       = Some (File ''a=1;b=2'' 9)"
proof -
  have debug: "debug dry_kdiff3"
    by (simp add: dry_kdiff3_def dry_def)
  have loop: "choice_loop editor dry_kdiff3 prompt_rpmnew ''N'' ''/etc/foo.conf''
      ''/etc/foo.conf.rpmnew'' ''/etc/foo.conf'' ''/etc/foo.conf.rpmnew'' [''m'', ''s''] foo_new =
     (Inr ''S'', [],
      prompted prompt_rpmnew dry_kdiff3 ''/etc/foo.conf'' ''/etc/foo.conf.rpmnew''
        (print ''rm /etc/foo.conf.orig''
          (print ''rm /etc/foo.conf.rpmnew''
            ((prompted prompt_rpmnew dry_kdiff3 ''/etc/foo.conf'' ''/etc/foo.conf.rpmnew''
                foo_new)
              \<lparr>fs := (fs foo_new)(''/etc/foo.conf'' \<mapsto> File ''a=1;b=2'' 9)\<rparr>))))"
    by (simp add: choice_loop_Cons ls_conf_file_def lexists_def flush_input_def choice_def
        upper_char_def merge_conf_files_def check_call_def not_merged_def
        remove_def print_def emit_def
        prompted_def dry_kdiff3_def dry_def plain_def editor_def no_tools_def foo_new_def)
  have access: "\<not> os_access ((fs foo_new)(''/etc/foo.conf'' \<mapsto> File ''a=1;b=2'' 9))
      ''/etc/foo.conf.rpmsave''"
    "\<not> os_access ((fs foo_new)(''/etc/foo.conf'' \<mapsto> File ''a=1;b=2'' 9))
      ''/etc/foo.conf.rpmorig''"
    by (simp_all add: os_access_def os_stat_def follow_none foo_new_def)
  have cfg: "\<not> diff dry_kdiff3" "\<not> clean dry_kdiff3"
    "packages dry_kdiff3 = [[[(''/etc/foo.conf'', 1)]]]"
    by (simp_all add: dry_kdiff3_def dry_def plain_def)
  have handled: "fst (handle_conf_file editor dry_kdiff3 ''/etc/foo.conf'' [''m'', ''s''] foo_new)
      = Inr ()"
    "fs (snd (snd (handle_conf_file editor dry_kdiff3 ''/etc/foo.conf'' [''m'', ''s''] foo_new)))
      = (fs foo_new)(''/etc/foo.conf'' \<mapsto> File ''a=1;b=2'' 9)"
    using foo_new_access access
    by (simp_all add: handle_conf_file_def handle_rpmnew_def foo_new_differs loop cfg)
  have "fst (run editor dry_kdiff3 [''m'', ''s''] foo_new) = Inr ()
   \<and> fs (snd (snd (run editor dry_kdiff3 [''m'', ''s''] foo_new)))
       = (fs foo_new)(''/etc/foo.conf'' \<mapsto> File ''a=1;b=2'' 9)"
  proof -
    from handled obtain inp1 w1 where
      "handle_conf_file editor dry_kdiff3 ''/etc/foo.conf'' [''m'', ''s''] foo_new
         = (Inr (), inp1, w1)"
      and "fs w1 = (fs foo_new)(''/etc/foo.conf'' \<mapsto> File ''a=1;b=2'' 9)"
      by (cases "handle_conf_file editor dry_kdiff3 ''/etc/foo.conf'' [''m'', ''s''] foo_new")
         auto
    then show ?thesis
      by (simp add: run_def handle_package_def get_list_of_config_def RPMFILE_CONFIG_def cfg)
  qed
  with debug show ?thesis
    by (simp add: foo_new_def)
qed

end
